theory Spec2Isabelle
  imports Complex_Main "HOL-Library.Log_Nat"
begin

section \<open>Python floats, errors and built-ins\<close>

text \<open>
  The Python sources compute with IEEE doubles. A finite double is a rational
  \<open>m * 2 ^ k\<close> with \<open>\<bar>m\<bar> < 2 ^ 53\<close>, and every arithmetic operation returns the
  exact result rounded to the nearest double, ties to the even significand. The
  embedding carries doubles as rationals and rounds after each operation, as the
  hardware does. The exponent is not bounded: inputs that are \<open>inf\<close> or \<open>nan\<close>, and
  results beyond the largest double (about \<open>1.8e308\<close>) or below the smallest normal one
  (about \<open>2.2e-308\<close>), are not represented for Python scalars. Signed zeros are not
  told apart. A number that is not a double (a decimal such as \<open>3 / 10\<close>, written
  \<open>0.3\<close> in Python or in a JSON record) stands for the double nearest to it: every
  operation first rounds its operands, which leaves a double as it is.
\<close>

text \<open>Rounding to the nearest integer, ties to even.\<close>

definition rne :: "rat \<Rightarrow> int" where
  "rne z = (let n = \<lfloor>z\<rfloor>; r = z - of_int n
            in if r < 1 / 2 then n else if 1 / 2 < r then n + 1
               else if even n then n else n + 1)"

text \<open>The binary exponent of a positive rational: \<open>2 ^ e \<le> x < 2 ^ (e + 1)\<close>.\<close>

definition float_exponent :: "rat \<Rightarrow> int" where
  "float_exponent x = (if 1 \<le> x then bitlen \<lfloor>x\<rfloor> - 1 else - bitlen (\<lceil>1 / x\<rceil> - 1))"

text \<open>The double nearest to a rational: 53 significant bits, ties to even.\<close>

definition round_double :: "rat \<Rightarrow> rat" where
  "round_double x =
     (if x = 0 then 0
      else (let a = \<bar>x\<bar>; q = 2 powi (float_exponent a - 52)
            in sgn x * (of_int (rne (a / q)) * q)))"

text \<open>
  The four operations on doubles. Division is applied to a divisor that is not zero;
  where the source divides Python floats, the callers raise \<open>ZeroDivisionError\<close> first.
\<close>

definition fadd :: "rat \<Rightarrow> rat \<Rightarrow> rat" where
  "fadd a b = round_double (round_double a + round_double b)"

definition fsub :: "rat \<Rightarrow> rat \<Rightarrow> rat" where
  "fsub a b = round_double (round_double a - round_double b)"

definition fmul :: "rat \<Rightarrow> rat \<Rightarrow> rat" where
  "fmul a b = round_double (round_double a * round_double b)"

definition fdiv :: "rat \<Rightarrow> rat \<Rightarrow> rat" where
  "fdiv a b = round_double (round_double a / round_double b)"

text \<open>The conversion of an integer to a double, as in \<open>i * x\<close> with a float \<open>x\<close>.\<close>

definition py_float :: "int \<Rightarrow> rat" where
  "py_float n = round_double (of_int n)"

datatype py_error = ZeroDivisionError | IndexError | ValueError

text \<open>\<open>int(x)\<close> on a float truncates toward zero.\<close>

definition py_int :: "rat \<Rightarrow> int" where
  "py_int x = (if 0 \<le> x then \<lfloor>x\<rfloor> else \<lceil>x\<rceil>)"

text \<open>\<open>range(n)\<close>: empty when \<open>n \<le> 0\<close>.\<close>

definition py_range :: "int \<Rightarrow> nat list" where
  "py_range n = [0..<nat n]"

text \<open>\<open>range(a, b)\<close> over integers: empty when \<open>b \<le> a\<close>.\<close>

definition py_range2 :: "int \<Rightarrow> int \<Rightarrow> int list" where
  "py_range2 a b = [a..b - 1]"

text \<open>\<open>d.get(k, dflt)\<close>.\<close>

definition dict_get :: "('k \<rightharpoonup> 'v) \<Rightarrow> 'k \<Rightarrow> 'v \<Rightarrow> 'v" where
  "dict_get d k dflt = (case d k of None \<Rightarrow> dflt | Some v \<Rightarrow> v)"

section \<open>tms.py: field to current, biphasic pulses, the applicator\<close>

definition geometry :: "string \<rightharpoonup> (string \<rightharpoonup> rat)" where
  "geometry = map_of
     [(''HL23PYR'', map_of [(''soma'', 25 / 1000), (''apical'', 5 / 100), (''basal'', 3 / 100)]),
      (''HL23PV'', map_of [(''soma'', 15 / 1000)]),
      (''HL23SST'', map_of [(''soma'', 15 / 1000)]),
      (''HL23VIP'', map_of [(''soma'', 15 / 1000)])]"

definition convert_field_to_current :: "rat \<Rightarrow> string \<Rightarrow> string \<Rightarrow> rat" where
  "convert_field_to_current field_Vm cell_type compartment =
     (let conversion_factor = dict_get (dict_get geometry cell_type Map.empty) compartment (2 / 100)
      in fmul field_Vm conversion_factor)"

text \<open>
  An \<open>IClamp\<close> point process: the section it sits on (the section's \<open>hObj\<close>, here a
  number) and the three attributes the code assigns.
\<close>

record iclamp =
  ic_sec :: nat
  ic_delay :: rat
  ic_dur :: rat
  ic_amp :: rat

text \<open>
  A cell of \<open>sim.net.cells\<close>: its population tag (\<open>cell.tags.get('pop')\<close>) and its
  sections, an ordered dictionary from name to \<open>hObj\<close>.
\<close>

record cell =
  tags_pop :: "string option"
  secs :: "(string \<times> nat) list"

text \<open>
  The simulator state the applicator works on: the cell roster and the point processes
  that exist. \<open>h.IClamp(...)\<close> adds one to the latter.
\<close>

record sim =
  net_cells :: "cell list"
  point_processes :: "iclamp list"

text \<open>
  The five entries of \<open>cfg.tms_params\<close> that the code reads, all floats. A dictionary
  that lacks one of them (a \<open>KeyError\<close>) is outside the model.
\<close>

record tms_params =
  ef_amp_V_per_m :: rat
  freq_Hz :: rat
  stim_start_ms :: rat
  stim_end_ms :: rat
  width_ms :: rat

text \<open>The config object: \<open>hasattr(cfg, 'tms_params')\<close> is \<open>tms_params cfg \<noteq> None\<close>.\<close>

record cfg =
  tms_params :: "tms_params option"

text \<open>
  \<open>apply_biphasic_pulse\<close> creates two clamps on the section and returns them; the
  second component is the simulator's store of point processes after the call.
\<close>

definition apply_biphasic_pulse ::
  "nat \<Rightarrow> rat \<Rightarrow> rat \<Rightarrow> rat \<Rightarrow> iclamp list \<Rightarrow> iclamp list \<times> iclamp list" where
  "apply_biphasic_pulse soma_sec onset amp_nA duration store =
     (let phase_dur = fdiv duration 2;
          stim1 = \<lparr>ic_sec = soma_sec, ic_delay = onset, ic_dur = phase_dur, ic_amp = amp_nA\<rparr>;
          stim2 = \<lparr>ic_sec = soma_sec, ic_delay = fadd onset phase_dur, ic_dur = phase_dur,
                   ic_amp = - amp_nA\<rparr>
      in ([stim1, stim2], store @ [stim1, stim2]))"

text \<open>The soma lookup of the applicator: \<open>soma_0\<close>, else \<open>soma\<close>, else the first section.\<close>

definition find_soma_sec :: "cell \<Rightarrow> py_error + nat" where
  "find_soma_sec c =
     (case map_of (secs c) ''soma_0'' of
        Some hObj \<Rightarrow> Inr hObj
      | None \<Rightarrow>
          (case map_of (secs c) ''soma'' of
             Some hObj \<Rightarrow> Inr hObj
           | None \<Rightarrow>
               (case secs c of
                  [] \<Rightarrow> Inl IndexError
                | (first_sec_name, hObj) # _ \<Rightarrow> Inr hObj)))"

text \<open>
  The inner loop \<open>for pulse_idx in range(n_pulses)\<close>, threading the list \<open>clamps\<close> and
  the store. The onset is \<open>stim_start + pulse_idx * pulse_interval\<close> in doubles.
\<close>

fun pulse_loop ::
  "nat \<Rightarrow> rat \<Rightarrow> rat \<Rightarrow> rat \<Rightarrow> rat \<Rightarrow> nat list \<Rightarrow> iclamp list \<times> iclamp list
     \<Rightarrow> iclamp list \<times> iclamp list" where
  "pulse_loop soma_sec stim_start pulse_interval amp_nA width [] st = st"
| "pulse_loop soma_sec stim_start pulse_interval amp_nA width (pulse_idx # rest) (clamps, store) =
     (let pulse_onset = fadd stim_start (fmul (py_float (int pulse_idx)) pulse_interval);
          (pulse_clamps, store') = apply_biphasic_pulse soma_sec pulse_onset amp_nA width store
      in pulse_loop soma_sec stim_start pulse_interval amp_nA width rest
           (clamps @ pulse_clamps, store'))"

text \<open>The outer loop \<open>for cell in sim.net.cells\<close>.\<close>

fun cell_loop ::
  "string \<Rightarrow> rat \<Rightarrow> rat \<Rightarrow> rat \<Rightarrow> rat \<Rightarrow> int \<Rightarrow> cell list \<Rightarrow> iclamp list \<times> iclamp list
     \<Rightarrow> py_error + (iclamp list \<times> iclamp list)" where
  "cell_loop target_pop stim_start pulse_interval amp_nA width n_pulses [] st = Inr st"
| "cell_loop target_pop stim_start pulse_interval amp_nA width n_pulses (c # cs) st =
     (if tags_pop c = Some target_pop then
        (case find_soma_sec c of
           Inl e \<Rightarrow> Inl e
         | Inr soma_sec \<Rightarrow>
             cell_loop target_pop stim_start pulse_interval amp_nA width n_pulses cs
               (pulse_loop soma_sec stim_start pulse_interval amp_nA width (py_range n_pulses) st))
      else cell_loop target_pop stim_start pulse_interval amp_nA width n_pulses cs st)"

text \<open>
  The pulse count as the applicator computes it (tms.py, lines 63-64):
  \<open>int(stim_duration * freq_Hz / 1000.0)\<close>, three rounded operations.
\<close>

definition applicator_n_pulses :: "tms_params \<Rightarrow> int" where
  "applicator_n_pulses p =
     (let stim_duration = fsub (stim_end_ms p) (stim_start_ms p)
      in py_int (fdiv (fmul stim_duration (freq_Hz p)) 1000))"

text \<open>
  \<open>apply_tms_from_params\<close> returns the list of clamps; the simulator state after the
  call is the second component. The prints are not modelled.
\<close>

definition apply_tms_from_params :: "sim \<Rightarrow> cfg \<Rightarrow> string \<Rightarrow> py_error + (iclamp list \<times> sim)" where
  "apply_tms_from_params s c target_pop =
     (case tms_params c of
        None \<Rightarrow> Inr ([], s)
      | Some p \<Rightarrow>
          (let n_pulses = applicator_n_pulses p
           in if freq_Hz p = 0 then Inl ZeroDivisionError
              else
                (let pulse_interval = fdiv 1000 (freq_Hz p);
                     amp_nA = convert_field_to_current (ef_amp_V_per_m p) target_pop ''soma''
                 in (case cell_loop target_pop (stim_start_ms p) pulse_interval amp_nA (width_ms p)
                            n_pulses (net_cells s) ([], point_processes s) of
                       Inl e \<Rightarrow> Inl e
                     | Inr (clamps, store) \<Rightarrow> Inr (clamps, s\<lparr>point_processes := store\<rparr>)))))"

text \<open>The pulse count as the pulse-time helper computes it (tms.py, lines 116-117).\<close>

definition helper_n_pulses :: "tms_params \<Rightarrow> int" where
  "helper_n_pulses p =
     (let stim_duration = fsub (stim_end_ms p) (stim_start_ms p)
      in py_int (fdiv (fmul stim_duration (freq_Hz p)) 1000))"

definition get_tms_pulse_times :: "cfg \<Rightarrow> py_error + rat list" where
  "get_tms_pulse_times c =
     (case tms_params c of
        Some p \<Rightarrow>
          (let n_pulses = helper_n_pulses p
           in if freq_Hz p = 0 then Inl ZeroDivisionError
              else
                (let pulse_interval = fdiv 1000 (freq_Hz p)
                 in Inr (map (\<lambda>i. fadd (stim_start_ms p) (fmul (py_float (int i)) pulse_interval))
                           (py_range n_pulses))))
      | None \<Rightarrow> Inr [])"

section \<open>test\_rtms\_lfp\_quick.py: the derived pulse count\<close>

text \<open>
  The script overrides four entries of \<open>cfg.tms_params\<close> and recomputes the pulse count
  from them (lines 52-60).
\<close>

definition quick_test_override :: "tms_params \<Rightarrow> tms_params" where
  "quick_test_override p =
     p\<lparr>ef_amp_V_per_m := 40, freq_Hz := 10, stim_start_ms := 500, stim_end_ms := 1500\<rparr>"

definition quick_test_n_pulses :: "tms_params \<Rightarrow> int" where
  "quick_test_n_pulses p =
     (let tms_duration = fsub (stim_end_ms p) (stim_start_ms p)
      in py_int (fdiv (fmul tms_duration (freq_Hz p)) 1000))"

section \<open>analyze\_rtms\_lfp.py: populations and firing-rate histograms\<close>

text \<open>An entry of \<open>data['net']['cells']\<close>: its \<open>gid\<close> and \<open>cell.get('tags', {}).get('pop')\<close>.\<close>

record data_cell =
  gid :: int
  pop_tag :: "string option"

text \<open>
  The analyzer after \<open>load_data\<close>. \<open>cellNumber\<close> is \<open>Some\<close> when the record has a
  \<open>simConfig\<close> with a \<open>cellNumber\<close> table; \<open>data_net_pops\<close> and \<open>data_net_cells\<close> are
  \<open>Some\<close> when \<open>data['net']\<close> has \<open>pops\<close> and \<open>cells\<close>. An entry of \<open>pops\<close> maps to its
  \<open>cellGids\<close> list when it has one. \<open>duration\<close> is the loaded duration (2000 when the
  record gives none).
\<close>

record analyzer =
  spikes_times :: "rat list"
  spikes_ids :: "int list"
  cellNumber :: "(string \<rightharpoonup> int) option"
  data_net_pops :: "(string \<rightharpoonup> int list option) option"
  data_net_cells :: "data_cell list option"
  duration :: rat

text \<open>
  What \<open>get_population_cell_count\<close> returns: an integer, or the \<open>cellGids\<close> list of the
  \<open>net.pops\<close> entry (the source returns the list itself there, not its length).
\<close>

datatype count_val = IntV int | ListV "int list"

definition get_population_cell_count :: "analyzer \<Rightarrow> string \<Rightarrow> count_val" where
  "get_population_cell_count a pop_name =
     (case cellNumber a of
        Some tbl \<Rightarrow> IntV (dict_get tbl pop_name 0)
      | None \<Rightarrow>
          (case (case data_net_pops a of Some pops \<Rightarrow> pops pop_name | None \<Rightarrow> None) of
             Some entry \<Rightarrow> (case entry of Some gids \<Rightarrow> ListV gids | None \<Rightarrow> IntV 0)
           | None \<Rightarrow>
               (case data_net_cells a of
                  Some cells \<Rightarrow> IntV (int (length (filter (\<lambda>c. pop_tag c = Some pop_name) cells)))
                | None \<Rightarrow> IntV 0)))"

definition pop_order :: "string list" where
  "pop_order = [''HL23PYR'', ''HL23PV'', ''HL23SST'', ''HL23VIP'']"

text \<open>
  The loop \<open>for pop in pop_order\<close> of \<open>get_population_gids\<close>; running off the end falls
  through to \<open>return []\<close>.
\<close>

fun gid_loop :: "(string \<rightharpoonup> int) \<Rightarrow> string \<Rightarrow> string list \<Rightarrow> int \<Rightarrow> int list" where
  "gid_loop cell_counts pop_name [] gid_start = []"
| "gid_loop cell_counts pop_name (pop # rest) gid_start =
     (let count = dict_get cell_counts pop 0
      in if pop = pop_name then py_range2 gid_start (gid_start + count)
         else gid_loop cell_counts pop_name rest (gid_start + count))"

definition get_population_gids :: "analyzer \<Rightarrow> string \<Rightarrow> int list" where
  "get_population_gids a pop_name =
     (case data_net_cells a of
        Some cells \<Rightarrow> map gid (filter (\<lambda>c. pop_tag c = Some pop_name) cells)
      | None \<Rightarrow>
          (case cellNumber a of
             Some cell_counts \<Rightarrow> gid_loop cell_counts pop_name pop_order 0
           | None \<Rightarrow> []))"

text \<open>
  \<open>get_population_spikes\<close>: the boolean mask \<open>np.isin(ids, pop_gids)\<close> indexes the
  times; numpy raises \<open>IndexError\<close> when mask and array differ in length. The times
  are elements of a float array, hence doubles.
\<close>

definition get_population_spikes :: "analyzer \<Rightarrow> string \<Rightarrow> py_error + rat list" where
  "get_population_spikes a pop_name =
     (let pop_gids = get_population_gids a pop_name
      in if pop_gids = [] then Inr []
         else if length (spikes_ids a) \<noteq> length (spikes_times a) then Inl IndexError
         else Inr (map (\<lambda>(t, i). round_double t) (filter (\<lambda>(t, i). i \<in> set pop_gids)
                     (zip (spikes_times a) (spikes_ids a)))))"

text \<open>
  \<open>np.arange(start, stop, step)\<close> on floats. The length is
  \<open>ceil((stop - start) / step)\<close>, computed with Python floats, so a zero step raises
  \<open>ZeroDivisionError\<close>; no element when it is not positive. The first element is
  \<open>start\<close>, the second \<open>start + step\<close>, and with \<open>delta\<close> their difference the
  \<open>i\<close>-th is \<open>start + i * delta\<close>.
\<close>

definition np_arange :: "rat \<Rightarrow> rat \<Rightarrow> rat \<Rightarrow> py_error + rat list" where
  "np_arange start stop step =
     (if step = 0 then Inl ZeroDivisionError
      else
        (let len = \<lceil>fdiv (fsub stop start) step\<rceil>;
             nxt = fadd start step;
             delta = fsub nxt start
         in Inr (map (\<lambda>i. if i = 0 then round_double start else if i = 1 then nxt
                           else fadd start (fmul (py_float (int i)) delta))
                   [0..<nat len])))"

text \<open>
  \<open>np.histogram(xs, bins=edges)\<close>: every bin is half-open \<open>[lo, hi)\<close> except the last,
  which is closed; fewer than two edges give no bin. Edges that decrease somewhere are
  refused with \<open>ValueError\<close>.
\<close>

fun hist_counts :: "rat list \<Rightarrow> rat list \<Rightarrow> nat list" where
  "hist_counts xs (lo # hi # []) = [length (filter (\<lambda>x. lo \<le> x \<and> x \<le> hi) xs)]"
| "hist_counts xs (lo # hi # rest) =
     length (filter (\<lambda>x. lo \<le> x \<and> x < hi) xs) # hist_counts xs (hi # rest)"
| "hist_counts xs _ = []"

definition np_histogram :: "rat list \<Rightarrow> rat list \<Rightarrow> py_error + nat list" where
  "np_histogram xs bin_edges =
     (if sorted bin_edges then Inr (hist_counts xs bin_edges) else Inl ValueError)"

text \<open>\<open>(bin_edges[:-1] + bin_edges[1:]) / 2\<close>.\<close>

definition bin_centers_of :: "rat list \<Rightarrow> rat list" where
  "bin_centers_of bin_edges =
     map (\<lambda>(lo, hi). fdiv (fadd lo hi) 2) (zip (butlast bin_edges) (tl bin_edges))"

text \<open>
  An element of a numpy float array that comes out of a division: numpy does not raise
  on a zero divisor, it stores \<open>inf\<close>, \<open>-inf\<close> or \<open>nan\<close> (and warns).
\<close>

datatype npfloat = Fin rat | PInf | NInf | NaN

definition np_true_divide :: "rat \<Rightarrow> rat \<Rightarrow> npfloat" where
  "np_true_divide a b =
     (if b = 0 then (if a = 0 then NaN else if 0 < a then PInf else NInf)
      else Fin (fdiv a b))"

text \<open>
  \<open>counts / (bin_size / 1000.0) / n_cells\<close>. The first division is by a float that is
  not zero on this path. With an integer \<open>n_cells\<close> every element is divided by it;
  with a list, numpy broadcasts: the shapes must agree or one of them be 1, else
  \<open>ValueError\<close>.
\<close>

definition rates_of :: "nat list \<Rightarrow> rat \<Rightarrow> count_val \<Rightarrow> py_error + npfloat list" where
  "rates_of counts bin_size n_cells =
     (let scaled = map (\<lambda>c. fdiv (py_float (int c)) (fdiv bin_size 1000)) counts
      in case n_cells of
           IntV n \<Rightarrow> Inr (map (\<lambda>r. np_true_divide r (py_float n)) scaled)
         | ListV gs \<Rightarrow>
             if length gs = length scaled then
               Inr (map (\<lambda>(r, g). np_true_divide r (py_float g)) (zip scaled gs))
             else if length gs = 1 then
               Inr (map (\<lambda>r. np_true_divide r (py_float (hd gs))) scaled)
             else if length scaled = 1 then
               Inr (map (\<lambda>g. np_true_divide (hd scaled) (py_float g)) gs)
             else Inl ValueError)"

text \<open>
  \<open>compute_firing_rate_histogram\<close>, returning \<open>(bin_centers, firing_rates)\<close>. In the
  first branch \<open>self.duration / bin_size\<close> divides Python floats, and \<open>np.zeros\<close> of a
  negative length raises \<open>ValueError\<close>.
\<close>

definition compute_firing_rate_histogram ::
  "analyzer \<Rightarrow> string \<Rightarrow> rat \<Rightarrow> py_error + (rat list \<times> npfloat list)" where
  "compute_firing_rate_histogram a pop_name bin_size =
     (case get_population_spikes a pop_name of
        Inl e \<Rightarrow> Inl e
      | Inr spike_times \<Rightarrow>
          (let n_cells = get_population_cell_count a pop_name
           in if length spike_times = 0 \<or> n_cells = IntV 0 then
                (if bin_size = 0 then Inl ZeroDivisionError
                 else
                   (let n_bins = py_int (fdiv (duration a) bin_size)
                    in if n_bins < 0 then Inl ValueError
                       else Inr (map (\<lambda>i. fadd (fmul (py_float (int i)) bin_size) (fdiv bin_size 2))
                                   (py_range n_bins),
                                 replicate (nat n_bins) (Fin 0))))
              else
                (case np_arange 0 (fadd (duration a) bin_size) bin_size of
                   Inl e \<Rightarrow> Inl e
                 | Inr bins \<Rightarrow>
                     (case np_histogram spike_times bins of
                        Inl e \<Rightarrow> Inl e
                      | Inr counts \<Rightarrow>
                          (case rates_of counts bin_size n_cells of
                             Inl e \<Rightarrow> Inl e
                           | Inr firing_rates \<Rightarrow> Inr (bin_centers_of bins, firing_rates))))))"

section \<open>Rounding to the nearest double\<close>

text \<open>
  Rounding is monotone, odd, keeps the sign, and leaves a double as it is; an integer of
  magnitude at most \<open>2 ^ 53\<close> is a double.
\<close>

lemma rne_bounds: "\<lfloor>z\<rfloor> \<le> rne z \<and> rne z \<le> \<lfloor>z\<rfloor> + 1"
  by (simp add: rne_def Let_def)

lemma rne_of_int [simp]: "rne (of_int n) = n"
  by (simp add: rne_def Let_def)

lemma rne_mono:
  assumes "z \<le> z'"
  shows "rne z \<le> rne z'"
proof (cases "\<lfloor>z\<rfloor> = \<lfloor>z'\<rfloor>")
  case True
  then have "z - of_int \<lfloor>z\<rfloor> \<le> z' - of_int \<lfloor>z'\<rfloor>" using assms by simp
  with True show ?thesis by (auto simp: rne_def Let_def)
next
  case False
  with assms have "\<lfloor>z\<rfloor> < \<lfloor>z'\<rfloor>" using floor_mono[OF assms] by linarith
  then have "\<lfloor>z\<rfloor> + 1 \<le> \<lfloor>z'\<rfloor>" by simp
  with rne_bounds[of z] rne_bounds[of z'] show ?thesis by linarith
qed

lemma rne_nonneg: "0 \<le> z \<Longrightarrow> 0 \<le> rne z"
  using rne_mono[of 0 z] by (simp add: rne_def)

lemma float_exponent_bounds:
  assumes "0 < x"
  shows "2 powi float_exponent x \<le> x \<and> x < 2 powi (float_exponent x + 1)"
proof (cases "1 \<le> x")
  case True
  then have p: "0 < \<lfloor>x\<rfloor>" by linarith
  let ?k = "bitlen \<lfloor>x\<rfloor>"
  from bitlen_bounds[OF p] have lo: "2 ^ nat (?k - 1) \<le> \<lfloor>x\<rfloor>" and hi: "\<lfloor>x\<rfloor> < 2 ^ nat ?k"
    by simp_all
  from p have k1: "1 \<le> ?k" using bitlen_eq_zero_iff[of "\<lfloor>x\<rfloor>"] bitlen_nonneg[of "\<lfloor>x\<rfloor>"]
    by linarith
  have "(of_int (2 ^ nat (?k - 1)) :: rat) \<le> of_int \<lfloor>x\<rfloor>" using lo by (simp only: of_int_le_iff)
  also have "\<dots> \<le> x" by simp
  finally have a: "(2::rat) ^ nat (?k - 1) \<le> x" by simp
  have "\<lfloor>x\<rfloor> + 1 \<le> 2 ^ nat ?k" using hi by simp
  then have "(of_int (\<lfloor>x\<rfloor> + 1) :: rat) \<le> of_int (2 ^ nat ?k)" by (simp only: of_int_le_iff)
  moreover have "x < of_int (\<lfloor>x\<rfloor> + 1)" by linarith
  ultimately have b: "x < (2::rat) ^ nat ?k" by simp
  have e: "float_exponent x = ?k - 1" using True by (simp add: float_exponent_def)
  show ?thesis
    unfolding e using a b k1 by (simp add: power_int_def)
next
  case False
  with assms have x1: "x < 1" by simp
  let ?y = "1 / x"
  have y1: "1 < ?y" using assms x1 by simp
  let ?c = "\<lceil>?y\<rceil> - 1"
  have c0: "0 < ?c" using y1 by linarith
  let ?k = "bitlen ?c"
  from bitlen_bounds[OF c0] have lo: "2 ^ nat (?k - 1) \<le> ?c" and hi: "?c < 2 ^ nat ?k"
    by simp_all
  from c0 have k1: "1 \<le> ?k" using bitlen_eq_zero_iff[of ?c] bitlen_nonneg[of ?c] by linarith
  have "\<lceil>?y\<rceil> \<le> 2 ^ nat ?k" using hi by simp
  then have ch: "(of_int \<lceil>?y\<rceil> :: rat) \<le> of_int (2 ^ nat ?k)" by (simp only: of_int_le_iff)
  have "?y \<le> of_int \<lceil>?y\<rceil>" by (rule le_of_int_ceiling)
  also note ch
  also have "(of_int (2 ^ nat ?k) :: rat) = 2 ^ nat ?k" by simp
  finally have yh: "?y \<le> (2::rat) ^ nat ?k" .
  have "(of_int (2 ^ nat (?k - 1)) :: rat) \<le> of_int ?c" using lo by (simp only: of_int_le_iff)
  moreover have "of_int ?c < ?y" by linarith
  ultimately have yl: "(2::rat) ^ nat (?k - 1) < ?y" by simp
  have p2: "(0::rat) < 2 ^ nat ?k" "(0::rat) < 2 ^ nat (?k - 1)" by simp_all
  from yh assms p2 have a: "1 / (2::rat) ^ nat ?k \<le> x"
    by (simp add: field_simps)
  from yl assms p2 have b: "x < 1 / (2::rat) ^ nat (?k - 1)"
    by (simp add: field_simps)
  have e: "float_exponent x = - ?k" using False by (simp add: float_exponent_def)
  have pa: "(2::rat) powi (- ?k) = 1 / 2 ^ nat ?k"
    using k1 by (simp add: power_int_def inverse_eq_divide power_one_over)
  have pb: "(2::rat) powi (- ?k + 1) = 1 / 2 ^ nat (?k - 1)"
  proof (cases "?k = 1")
    case True then show ?thesis by simp
  next
    case False
    with k1 have "- ?k + 1 < 0" by simp
    moreover have "nat (- (- ?k + 1)) = nat (?k - 1)" by simp
    ultimately show ?thesis by (simp add: power_int_def inverse_eq_divide power_one_over)
  qed
  show ?thesis unfolding e pa pb using a b by simp
qed

lemma float_exponent_mono:
  assumes "0 < x" and "x \<le> y"
  shows "float_exponent x \<le> float_exponent y"
proof (rule ccontr)
  assume "\<not> float_exponent x \<le> float_exponent y"
  then have "float_exponent y + 1 \<le> float_exponent x" by simp
  then have "(2::rat) powi (float_exponent y + 1) \<le> 2 powi float_exponent x"
    by (intro power_int_increasing) simp_all
  moreover from assms have "0 < y" by simp
  ultimately show False
    using float_exponent_bounds[OF assms(1)] float_exponent_bounds[OF \<open>0 < y\<close>] assms(2)
    by linarith
qed

lemma pow2_pos [simp]: "(0::rat) < 2 powi k"
  by (simp add: power_int_def)

lemma round_double_pos_eq:
  "0 < x \<Longrightarrow> round_double x = of_int (rne (x / 2 powi (float_exponent x - 52))) * 2 powi (float_exponent x - 52)"
  by (simp add: round_double_def Let_def)

lemma round_double_minus: "round_double (- x) = - round_double x"
  by (simp add: round_double_def Let_def sgn_minus)

lemma round_double_zero [simp]: "round_double 0 = 0"
  by (simp add: round_double_def)

lemma round_double_pos_bounds:
  assumes "0 < x"
  shows "2 powi float_exponent x \<le> round_double x \<and> round_double x \<le> 2 powi (float_exponent x + 1)"
proof -
  let ?e = "float_exponent x"
  let ?q = "(2::rat) powi (?e - 52)"
  have q: "0 < ?q" by simp
  have s1: "(2::rat) powi ?e = 2 ^ 52 * ?q"
    by (simp add: power_int_diff)
  have s2: "(2::rat) powi (?e + 1) = 2 ^ 53 * ?q"
    by (simp add: power_int_diff power_int_add)
  from float_exponent_bounds[OF assms] have "2 ^ 52 * ?q \<le> x" "x < 2 ^ 53 * ?q"
    unfolding s1 s2 by simp_all
  then have m: "2 ^ 52 \<le> x / ?q" "x / ?q \<le> 2 ^ 53"
    using q by (simp_all add: field_simps)
  have "rne (of_int (2 ^ 52)) \<le> rne (x / ?q)" using m(1) by (intro rne_mono) simp
  then have lo: "2 ^ 52 \<le> rne (x / ?q)" by (simp only: rne_of_int)
  have "rne (x / ?q) \<le> rne (of_int (2 ^ 53))" using m(2) by (intro rne_mono) simp
  then have hi: "rne (x / ?q) \<le> 2 ^ 53" by (simp only: rne_of_int)
  from lo have "(of_int (2 ^ 52) :: rat) \<le> of_int (rne (x / ?q))" by (simp only: of_int_le_iff)
  then have lo': "(2::rat) ^ 52 * ?q \<le> of_int (rne (x / ?q)) * ?q"
    using q by simp
  from hi have "(of_int (rne (x / ?q)) :: rat) \<le> of_int (2 ^ 53)" by (simp only: of_int_le_iff)
  then have hi': "of_int (rne (x / ?q)) * ?q \<le> (2::rat) ^ 53 * ?q"
    using q by simp
  show ?thesis
    unfolding round_double_pos_eq[OF assms] s1 s2 using lo' hi' by simp
qed

lemma round_double_pos: "0 < x \<Longrightarrow> 0 < round_double x"
  using round_double_pos_bounds[of x] pow2_pos[of "float_exponent x"] by linarith

lemma round_double_mono_pos:
  assumes "0 < x" and "x \<le> y"
  shows "round_double x \<le> round_double y"
proof -
  from assms have y: "0 < y" by simp
  show ?thesis
  proof (cases "float_exponent x = float_exponent y")
    case True
    let ?q = "(2::rat) powi (float_exponent y - 52)"
    have "x / ?q \<le> y / ?q" using assms(2) by (simp add: divide_right_mono)
    then have "rne (x / ?q) \<le> rne (y / ?q)" by (rule rne_mono)
    then have "(of_int (rne (x / ?q)) :: rat) \<le> of_int (rne (y / ?q))" by (simp only: of_int_le_iff)
    then have "of_int (rne (x / ?q)) * ?q \<le> of_int (rne (y / ?q)) * ?q" by simp
    then show ?thesis
      unfolding round_double_pos_eq[OF assms(1)] round_double_pos_eq[OF y] True .
  next
    case False
    with float_exponent_mono[OF assms] have "float_exponent x + 1 \<le> float_exponent y" by simp
    then have "(2::rat) powi (float_exponent x + 1) \<le> 2 powi float_exponent y"
      by (intro power_int_increasing) simp_all
    with round_double_pos_bounds[OF assms(1)] round_double_pos_bounds[OF y]
    show ?thesis by linarith
  qed
qed

lemma round_double_mono:
  assumes "x \<le> y"
  shows "round_double x \<le> round_double y"
proof -
  consider "0 < x" | "x = 0" | "x < 0" "0 \<le> y" | "x < 0" "y < 0" by linarith
  then show ?thesis
  proof cases
    case 1 then show ?thesis using assms by (rule round_double_mono_pos)
  next
    case 2
    then show ?thesis
      using assms round_double_pos[of y] by (cases "y = 0") (simp_all add: less_imp_le)
  next
    case 3
    then have "0 < round_double (- x)" by (intro round_double_pos) simp
    then have a: "round_double x < 0" by (simp add: round_double_minus)
    have "0 \<le> round_double y"
      using 3(2) round_double_pos[of y] by (cases "y = 0") (simp_all add: less_imp_le)
    with a show ?thesis by simp
  next
    case 4
    then have "round_double (- y) \<le> round_double (- x)"
      using assms by (intro round_double_mono_pos) simp_all
    then show ?thesis by (simp add: round_double_minus)
  qed
qed

lemma round_double_nonneg: "0 \<le> x \<Longrightarrow> 0 \<le> round_double x"
  using round_double_mono[of 0 x] by simp



lemma fsub_nonneg: "b \<le> a \<Longrightarrow> 0 \<le> fsub a b"
  unfolding fsub_def using round_double_mono[of b a] by (intro round_double_nonneg) simp

lemma fmul_nonneg_nonneg: "0 \<le> a \<Longrightarrow> 0 \<le> b \<Longrightarrow> 0 \<le> fmul a b"
  unfolding fmul_def by (intro round_double_nonneg mult_nonneg_nonneg)



lemma fdiv_nonneg_pos: "0 \<le> a \<Longrightarrow> 0 < b \<Longrightarrow> 0 \<le> fdiv a b"
  unfolding fdiv_def
  by (intro round_double_nonneg divide_nonneg_pos round_double_pos)


lemma fdiv_pos_pos: "0 < a \<Longrightarrow> 0 < b \<Longrightarrow> 0 < fdiv a b"
  unfolding fdiv_def by (intro round_double_pos divide_pos_pos)

lemma fadd_mono_right: "x \<le> y \<Longrightarrow> fadd s x \<le> fadd s y"
  unfolding fadd_def by (intro round_double_mono add_left_mono)

lemma fmul_mono_left: "0 \<le> c \<Longrightarrow> a \<le> b \<Longrightarrow> fmul a c \<le> fmul b c"
  unfolding fmul_def by (intro round_double_mono mult_right_mono round_double_nonneg)

lemma py_float_mono: "i \<le> j \<Longrightarrow> py_float i \<le> py_float j"
  unfolding py_float_def by (intro round_double_mono) simp

lemma py_int_nonneg: "0 \<le> x \<Longrightarrow> py_int x = \<lfloor>x\<rfloor>"
  by (simp add: py_int_def)


lemma nat_py_int: "nat (py_int x) = nat \<lfloor>x\<rfloor>"
  unfolding py_int_def by auto

lemma float_exponent_unique:
  assumes "0 < x" and "2 powi e \<le> x" and "x < 2 powi (e + 1)"
  shows "float_exponent x = e"
proof (rule ccontr)
  assume ne: "float_exponent x \<noteq> e"
  let ?e' = "float_exponent x"
  from float_exponent_bounds[OF assms(1)]
  have b: "2 powi ?e' \<le> x" "x < 2 powi (?e' + 1)" by simp_all
  from ne consider "?e' + 1 \<le> e" | "e + 1 \<le> ?e'" by linarith
  then show False
  proof cases
    case 1
    then have "(2::rat) powi (?e' + 1) \<le> 2 powi e" by (intro power_int_increasing) simp_all
    with b(2) assms(2) show False by linarith
  next
    case 2
    then have "(2::rat) powi (e + 1) \<le> 2 powi ?e'" by (intro power_int_increasing) simp_all
    with b(1) assms(3) show False by linarith
  qed
qed

lemma round_double_idem_pos:
  assumes "0 < x"
  shows "round_double (round_double x) = round_double x"
proof -
  let ?e = "float_exponent x"
  let ?q = "(2::rat) powi (?e - 52)"
  let ?m = "rne (x / ?q)"
  let ?y = "round_double x"
  have q: "0 < ?q" by simp
  have y: "?y = of_int ?m * ?q" by (rule round_double_pos_eq[OF assms])
  have y0: "0 < ?y" by (rule round_double_pos[OF assms])
  have s1: "(2::rat) powi ?e = 2 ^ 52 * ?q" by (simp add: power_int_diff)
  have s2: "(2::rat) powi (?e + 1) = 2 ^ 53 * ?q" by (simp add: power_int_diff power_int_add)
  have s3: "(2::rat) powi (?e + 1 - 52) = 2 * ?q" by (simp add: power_int_diff power_int_add)
  have s4: "(2::rat) powi (?e + 1 + 1) = 2 ^ 54 * ?q" by (simp add: power_int_diff power_int_add)
  from round_double_pos_bounds[OF assms]
  have lo: "2 ^ 52 * ?q \<le> ?y" and hi: "?y \<le> 2 ^ 53 * ?q" unfolding s1 s2 by simp_all
  show ?thesis
  proof (cases "?y < 2 ^ 53 * ?q")
    case True
    have ey: "float_exponent ?y = ?e"
      by (rule float_exponent_unique[OF y0]) (use lo True in \<open>simp_all add: s1 s2\<close>)
    have "?y / ?q = of_int ?m" using q y by simp
    then have "rne (?y / ?q) = ?m" by simp
    then show ?thesis
      unfolding round_double_pos_eq[OF y0] ey using y by simp
  next
    case False
    with hi have yy: "?y = 2 ^ 53 * ?q" by simp
    have ey: "float_exponent ?y = ?e + 1"
    proof (rule float_exponent_unique[OF y0])
      show "2 powi (?e + 1) \<le> ?y" unfolding s2 yy by simp
      show "?y < 2 powi (?e + 1 + 1)" unfolding s4 yy using q by simp
    qed
    have "?y / (2 * ?q) = of_int (2 ^ 52)" unfolding yy using q by simp
    then have r: "rne (?y / (2 * ?q)) = 2 ^ 52" by (simp only: rne_of_int)
    have "round_double ?y = of_int (rne (?y / (2 * ?q))) * (2 * ?q)"
      unfolding round_double_pos_eq[OF y0] ey s3 ..
    also have "\<dots> = 2 ^ 53 * ?q" unfolding r by simp
    finally show ?thesis using yy by simp
  qed
qed

lemma round_double_idem: "round_double (round_double x) = round_double x"
proof -
  consider "0 < x" | "x = 0" | "x < 0" by linarith
  then show ?thesis
  proof cases
    case 1 then show ?thesis by (rule round_double_idem_pos)
  next
    case 2 then show ?thesis by simp
  next
    case 3
    then have "round_double (round_double (- x)) = round_double (- x)"
      by (intro round_double_idem_pos) simp
    then show ?thesis by (simp add: round_double_minus)
  qed
qed

lemma round_double_of_int_pos:
  assumes "0 < n" and "n \<le> 2 ^ 53"
  shows "round_double (of_int n) = of_int n"
proof -
  let ?x = "of_int n :: rat"
  let ?e = "float_exponent ?x"
  have x0: "0 < ?x" using assms(1) by simp
  from float_exponent_bounds[OF x0] have lo: "2 powi ?e \<le> ?x" and hi: "?x < 2 powi (?e + 1)"
    by simp_all
  have x1: "1 \<le> ?x" using assms(1) by simp
  have xh: "?x \<le> 2 ^ 53"
  proof -
    have "?x \<le> of_int (2 ^ 53)" using assms(2) by (simp only: of_int_le_iff)
    then show ?thesis by simp
  qed
  have e0: "0 \<le> ?e"
  proof (rule ccontr)
    assume "\<not> 0 \<le> ?e"
    then have "?e + 1 \<le> 0" by simp
    then have "(2::rat) powi (?e + 1) \<le> 2 powi 0" by (intro power_int_increasing) simp_all
    with hi x1 show False by simp
  qed
  have e53: "?e \<le> 53"
  proof (rule ccontr)
    assume "\<not> ?e \<le> 53"
    then have "54 \<le> ?e" by simp
    then have "(2::rat) powi 54 \<le> 2 powi ?e" by (intro power_int_increasing) simp_all
    with lo xh show False by (simp add: power_int_def)
  qed
  show ?thesis
  proof (cases "?e \<le> 52")
    case True
    let ?k = "nat (52 - ?e)"
    have q: "(2::rat) powi (?e - 52) = 1 / 2 ^ ?k"
    proof (cases "?e = 52")
      case True then show ?thesis by simp
    next
      case False
      with \<open>?e \<le> 52\<close> have "?e - 52 < 0" by simp
      moreover have "nat (- (?e - 52)) = ?k" by simp
      ultimately show ?thesis by (simp add: power_int_def inverse_eq_divide power_one_over)
    qed
    have "?x / (1 / 2 ^ ?k) = of_int (n * 2 ^ ?k)" by simp
    then have r: "rne (?x / (1 / 2 ^ ?k)) = n * 2 ^ ?k" by (simp only: rne_of_int)
    show ?thesis
      unfolding round_double_pos_eq[OF x0] q r by simp
  next
    case False
    with e53 have e: "?e = 53" by simp
    from lo have "2 ^ 53 \<le> ?x" unfolding e by (simp add: power_int_def)
    with xh have xx: "?x = 2 ^ 53" by simp
    have q: "(2::rat) powi (?e - 52) = 2" unfolding e by simp
    have "?x / 2 = of_int (2 ^ 52)" unfolding xx by simp
    then have r: "rne (?x / 2) = 2 ^ 52" by (simp only: rne_of_int)
    show ?thesis
      unfolding round_double_pos_eq[OF x0] q r using xx by simp
  qed
qed

lemma round_double_of_int: "\<bar>n\<bar> \<le> 2 ^ 53 \<Longrightarrow> round_double (of_int n) = of_int n"
proof -
  assume a: "\<bar>n\<bar> \<le> 2 ^ 53"
  consider "0 < n" | "n = 0" | "n < 0" by linarith
  then show ?thesis
  proof cases
    case 1 with a show ?thesis by (intro round_double_of_int_pos) simp_all
  next
    case 2 then show ?thesis by simp
  next
    case 3
    with a have "round_double (of_int (- n)) = of_int (- n)"
      by (intro round_double_of_int_pos) simp_all
    then show ?thesis using round_double_minus[of "of_int n"] by simp
  qed
qed

lemma round_double_numeral:
  "(numeral k :: int) \<le> 2 ^ 53 \<Longrightarrow> round_double (numeral k) = numeral k"
  using round_double_of_int[of "numeral k"] by simp

lemma round_double_neg_numeral:
  "(numeral k :: int) \<le> 2 ^ 53 \<Longrightarrow> round_double (- numeral k) = - numeral k"
  using round_double_of_int[of "- numeral k"] by simp

lemma round_double_one: "round_double 1 = 1"
  using round_double_of_int[of 1] by simp

lemmas float_eval = fadd_def fsub_def fmul_def fdiv_def py_float_def round_double_numeral
  round_double_neg_numeral round_double_one round_double_zero

lemmas pyfloat_eval = py_float_def round_double_numeral round_double_neg_numeral
  round_double_one round_double_zero

section \<open>Double operations on the inputs of the examples\<close>

text \<open>
  The result of each double operation that the examples below meet, every one computed
  from the definition of the rounding.
\<close>

lemma tms_ev1: "fsub (11001 / 10) (1001 / 10) = 8796093022207999 / 8796093022208"
  by code_simp

lemma tms_ev2: "fmul (8796093022207999 / 8796093022208) 10 = 5497558138879999 / 549755813888"
  by code_simp

lemma tms_ev3: "fdiv (5497558138879999 / 549755813888) 1000 = 5629499534213119 / 562949953421312"
  by code_simp

lemma tms_ev4: "py_int (5629499534213119 / 562949953421312) = 9"
  by code_simp

lemma tms_ev5: "fsub (10003 / 10) (3 / 10) = 1000"
  by code_simp

lemma tms_ev6: "fmul 1000 10 = 10000"
  by (simp add: float_eval)

lemma tms_ev7: "fdiv 10000 1000 = 10"
  by (simp add: float_eval)

lemma tms_ev8: "py_int 10 = 10"
  by (simp add: py_int_def)

lemma tms_ev9: "fsub 3000 2000 = 1000"
  by (simp add: float_eval)

lemma tms_ev10: "fmul 1000 30 = 30000"
  by (simp add: float_eval)

lemma tms_ev11: "fdiv 30000 1000 = 30"
  by (simp add: float_eval)

lemma tms_ev12: "py_int 30 = 30"
  by (simp add: py_int_def)

lemma tms_ev13: "fsub 9007199254741992 9007199254740992 = 1000"
  by code_simp

lemma tms_ev14: "fmul 1000 1000 = 1000000"
  by (simp add: float_eval)

lemma tms_ev15: "fdiv 1000000 1000 = 1000"
  by (simp add: float_eval)

lemma tms_ev16: "py_int 1000 = 1000"
  by (simp add: py_int_def)

lemma tms_ev17: "fdiv 1000 1000 = 1"
  by (simp add: float_eval)

lemma tms_ev18: "fmul 0 1 = 0"
  by (simp add: float_eval)

lemma tms_ev19: "fadd 9007199254740992 0 = 9007199254740992"
  by (simp add: float_eval)

lemma tms_ev20: "fmul 1 1 = 1"
  by (simp add: float_eval)

lemma tms_ev21: "fadd 9007199254740992 1 = 9007199254740992"
  by code_simp

lemma tms_ev22: "round_double (3 / 10) = 5404319552844595 / 18014398509481984"
  by code_simp

lemma tms_ev23: "round_double (10003 / 10) = 4399365925057331 / 4398046511104"
  by code_simp

lemma tms_ev24: "fdiv 1000 30 = 4691249611844267 / 140737488355328"
  by code_simp

lemma tms_ev25: "fmul 0 (4691249611844267 / 140737488355328) = 0"
  by code_simp

lemma tms_ev26: "fadd 2000 0 = 2000"
  by (simp add: float_eval)

lemma tms_ev27: "fmul 1 (4691249611844267 / 140737488355328) = 4691249611844267 / 140737488355328"
  by code_simp

lemma tms_ev28: "fadd 2000 (4691249611844267 / 140737488355328) = 8942694572578133 / 4398046511104"
  by code_simp

lemma tms_ev29: "fmul 2 (4691249611844267 / 140737488355328) = 4691249611844267 / 70368744177664"
  by code_simp

lemma tms_ev30: "fadd 2000 (4691249611844267 / 70368744177664) = 4544648061474133 / 2199023255552"
  by code_simp

lemma tms_ev31: "fmul 3 (4691249611844267 / 140737488355328) = 100"
  by code_simp

lemma tms_ev32: "fadd 2000 100 = 2100"
  by (simp add: float_eval)

lemma tms_ev33: "round_double 9007199254741992 = 9007199254741992"
  by code_simp

lemma tms_ev34: "round_double 9007199254740993 = 9007199254740992"
  by code_simp

lemma tms_ev35: "fmul 40 (1 / 40) = 1"
  by code_simp

lemma tms_ev36: "fdiv 1 2 = 1 / 2"
  by code_simp

lemma tms_ev37: "fadd 500 (1 / 2) = 1001 / 2"
  by code_simp

lemma tms_ev38: "fadd 600 (1 / 2) = 1201 / 2"
  by code_simp

lemmas tms_ev = tms_ev1 tms_ev2 tms_ev3 tms_ev4 tms_ev5 tms_ev6 tms_ev7 tms_ev8 tms_ev9
  tms_ev10 tms_ev11 tms_ev12 tms_ev13 tms_ev14 tms_ev15 tms_ev16 tms_ev17 tms_ev18
  tms_ev19 tms_ev20 tms_ev21 tms_ev22 tms_ev23 tms_ev24 tms_ev25 tms_ev26 tms_ev27
  tms_ev28 tms_ev29 tms_ev30 tms_ev31 tms_ev32 tms_ev33 tms_ev34 tms_ev35 tms_ev36
  tms_ev37 tms_ev38

lemma hist_ev1: "fadd 20 10 = 30"
  by (simp add: float_eval)

lemma hist_ev2: "fsub 30 0 = 30"
  by (simp add: float_eval)

lemma hist_ev3: "fdiv 30 10 = 3"
  by (simp add: float_eval)

lemma hist_ev4: "fadd 0 10 = 10"
  by (simp add: float_eval)

lemma hist_ev5: "fsub 10 0 = 10"
  by (simp add: float_eval)

lemma hist_ev6: "fmul 2 10 = 20"
  by (simp add: float_eval)

lemma hist_ev7: "fadd 0 20 = 20"
  by (simp add: float_eval)

lemma hist_ev8: "fdiv 10 2 = 5"
  by (simp add: float_eval)

lemma hist_ev9: "fadd 10 20 = 30"
  by (simp add: float_eval)

lemma hist_ev10: "fdiv 30 2 = 15"
  by (simp add: float_eval)

lemma hist_ev11: "fdiv 10 1000 = 5764607523034235 / 576460752303423488"
  by code_simp

lemma hist_ev12: "fdiv 1 (5764607523034235 / 576460752303423488) = 100"
  by code_simp

lemma hist_ev13: "fdiv 100 2 = 50"
  by (simp add: float_eval)

lemma hist_ev14: "fdiv 2 (5764607523034235 / 576460752303423488) = 200"
  by code_simp

lemma hist_ev15: "fdiv 200 2 = 100"
  by (simp add: float_eval)

lemma hist_ev16: "fdiv 25 10 = 5 / 2"
  by code_simp

lemma hist_ev17: "py_int (5 / 2) = 2"
  by code_simp

lemma hist_ev18: "fmul 0 10 = 0"
  by (simp add: float_eval)

lemma hist_ev19: "fadd 0 5 = 5"
  by (simp add: float_eval)

lemma hist_ev20: "fmul 1 10 = 10"
  by (simp add: float_eval)

lemma hist_ev21: "fadd 10 5 = 15"
  by (simp add: float_eval)

lemma hist_ev22: "fadd 25 10 = 35"
  by (simp add: float_eval)

lemma hist_ev23: "fsub 35 0 = 35"
  by (simp add: float_eval)

lemma hist_ev24: "fdiv 35 10 = 7 / 2"
  by code_simp

lemma hist_ev25: "\<lceil>7 / 2 :: rat\<rceil> = 4"
  by code_simp

lemma hist_ev26: "fmul 3 10 = 30"
  by (simp add: float_eval)

lemma hist_ev27: "fadd 0 30 = 30"
  by (simp add: float_eval)

lemma hist_ev28: "fadd 20 30 = 50"
  by (simp add: float_eval)

lemma hist_ev29: "fdiv 50 2 = 25"
  by (simp add: float_eval)

lemma hist_ev30: "fdiv 0 (5764607523034235 / 576460752303423488) = 0"
  by code_simp

lemma hist_ev31: "fdiv 0 2 = 0"
  by (simp add: float_eval)

lemma hist_ev32: "round_double 5 = 5"
  by (simp add: float_eval)

lemma hist_ev33: "round_double 12 = 12"
  by (simp add: float_eval)

lemmas hist_ev = hist_ev1 hist_ev2 hist_ev3 hist_ev4 hist_ev5 hist_ev6 hist_ev7 hist_ev8
  hist_ev9 hist_ev10 hist_ev11 hist_ev12 hist_ev13 hist_ev14 hist_ev15 hist_ev16 hist_ev17
  hist_ev18 hist_ev19 hist_ev20 hist_ev21 hist_ev22 hist_ev23 hist_ev24 hist_ev25
  hist_ev26 hist_ev27 hist_ev28 hist_ev29 hist_ev30 hist_ev31 hist_ev32 hist_ev33

section \<open>The loops of the applicator\<close>

text \<open>
  The pulse loop appends one pair of clamps per onset, the cell loop one such run per
  targeted cell, on the section that the soma lookup finds.
\<close>

lemma nth_concat_pairs:
  "k < length xs \<Longrightarrow> concat (map (\<lambda>j. [f j, g j]) xs) ! (2 * k) = f (xs ! k)
     \<and> concat (map (\<lambda>j. [f j, g j]) xs) ! (2 * k + 1) = g (xs ! k)"
proof (induction xs arbitrary: k)
  case Nil then show ?case by simp
next
  case (Cons x xs)
  show ?case
  proof (cases k)
    case 0 then show ?thesis by simp
  next
    case (Suc j)
    with Cons.prems have "j < length xs" by simp
    from Cons.IH[OF this] Suc show ?thesis by simp
  qed
qed

lemma length_concat_pairs: "length (concat (map (\<lambda>j. [f j, g j]) xs)) = 2 * length xs"
  by (induction xs) simp_all

lemma concat_nested_pairs:
  "concat (map (\<lambda>h. concat (map (\<lambda>t. [f h t, g h t]) ts)) hs)
     = concat (map (\<lambda>j. [f (fst j) (snd j), g (fst j) (snd j)]) (List.product hs ts))"
  by (induction hs) (simp_all add: comp_def)

lemma find_soma_sec_ok: "secs c \<noteq> [] \<Longrightarrow> \<exists>h. find_soma_sec c = Inr h"
  by (cases "secs c") (auto simp: find_soma_sec_def split: option.splits)

lemma pulse_loop_eq:
  "pulse_loop sec s iv a w idxs (cl, st) =
     (cl @ concat (map (\<lambda>t. [\<lparr>ic_sec = sec, ic_delay = t, ic_dur = fdiv w 2, ic_amp = a\<rparr>,
                               \<lparr>ic_sec = sec, ic_delay = fadd t (fdiv w 2), ic_dur = fdiv w 2,
                                 ic_amp = - a\<rparr>])
                      (map (\<lambda>i. fadd s (fmul (py_float (int i)) iv)) idxs)),
      st @ concat (map (\<lambda>t. [\<lparr>ic_sec = sec, ic_delay = t, ic_dur = fdiv w 2, ic_amp = a\<rparr>,
                               \<lparr>ic_sec = sec, ic_delay = fadd t (fdiv w 2), ic_dur = fdiv w 2,
                                 ic_amp = - a\<rparr>])
                      (map (\<lambda>i. fadd s (fmul (py_float (int i)) iv)) idxs)))"
  by (induction idxs arbitrary: cl st) (simp_all add: apply_biphasic_pulse_def Let_def)

lemma cell_loop_ok:
  assumes "\<forall>c\<in>set cs. tags_pop c = Some pop \<longrightarrow> secs c \<noteq> []"
  shows "\<exists>hs. map find_soma_sec (filter (\<lambda>c. tags_pop c = Some pop) cs) = map Inr hs
          \<and> cell_loop pop s iv a w n cs (cl, st) =
            Inr (cl @ concat (map (\<lambda>h. concat (map (\<lambda>t.
                    [\<lparr>ic_sec = h, ic_delay = t, ic_dur = fdiv w 2, ic_amp = a\<rparr>,
                     \<lparr>ic_sec = h, ic_delay = fadd t (fdiv w 2), ic_dur = fdiv w 2, ic_amp = - a\<rparr>])
                    (map (\<lambda>i. fadd s (fmul (py_float (int i)) iv)) (py_range n)))) hs),
                 st @ concat (map (\<lambda>h. concat (map (\<lambda>t.
                    [\<lparr>ic_sec = h, ic_delay = t, ic_dur = fdiv w 2, ic_amp = a\<rparr>,
                     \<lparr>ic_sec = h, ic_delay = fadd t (fdiv w 2), ic_dur = fdiv w 2, ic_amp = - a\<rparr>])
                    (map (\<lambda>i. fadd s (fmul (py_float (int i)) iv)) (py_range n)))) hs))"
  using assms
proof (induction cs arbitrary: cl st)
  case Nil
  show ?case by (rule exI[of _ "[]"]) simp
next
  case (Cons c cs)
  let ?P = "\<lambda>h. concat (map (\<lambda>t.
                    [\<lparr>ic_sec = h, ic_delay = t, ic_dur = fdiv w 2, ic_amp = a\<rparr>,
                     \<lparr>ic_sec = h, ic_delay = fadd t (fdiv w 2), ic_dur = fdiv w 2, ic_amp = - a\<rparr>])
                    (map (\<lambda>i. fadd s (fmul (py_float (int i)) iv)) (py_range n)))"
  from Cons.prems have rest: "\<forall>c\<in>set cs. tags_pop c = Some pop \<longrightarrow> secs c \<noteq> []" by simp
  show ?case
  proof (cases "tags_pop c = Some pop")
    case False
    from Cons.IH[OF rest, of cl st] obtain hs where
      "map find_soma_sec (filter (\<lambda>c. tags_pop c = Some pop) cs) = map Inr hs"
      "cell_loop pop s iv a w n cs (cl, st)
         = Inr (cl @ concat (map ?P hs), st @ concat (map ?P hs))" by blast
    with False show ?thesis by (intro exI[of _ hs]) simp
  next
    case True
    with Cons.prems have "secs c \<noteq> []" by simp
    then obtain h where h: "find_soma_sec c = Inr h" using find_soma_sec_ok by blast
    have pl: "pulse_loop h s iv a w (py_range n) (cl, st) = (cl @ ?P h, st @ ?P h)"
      by (rule pulse_loop_eq)
    from Cons.IH[OF rest, of "cl @ ?P h" "st @ ?P h"]
    obtain hs where hs:
      "map find_soma_sec (filter (\<lambda>c. tags_pop c = Some pop) cs) = map Inr hs"
      "cell_loop pop s iv a w n cs (cl @ ?P h, st @ ?P h)
         = Inr ((cl @ ?P h) @ concat (map ?P hs), (st @ ?P h) @ concat (map ?P hs))" by blast
    show ?thesis
      using True h pl hs by (intro exI[of _ "h # hs"]) simp
  qed
qed

lemma soma_list_length:
  "map find_soma_sec (filter P cs) = map Inr hs \<Longrightarrow> length hs = length (filter P cs)"
  by (metis length_map)

lemma nested_pairs_length:
  "length (concat (map (\<lambda>h. concat (map (\<lambda>t. [f h t, g h t]) ts)) hs))
     = 2 * length ts * length hs"
  unfolding concat_nested_pairs by (simp add: length_concat_pairs)

lemma nested_pairs_nth:
  assumes "2 * k + 1 < length (concat (map (\<lambda>h. concat (map (\<lambda>t. [f h t, g h t]) ts)) hs))"
  shows "\<exists>h t. concat (map (\<lambda>h. concat (map (\<lambda>t. [f h t, g h t]) ts)) hs) ! (2 * k) = f h t
            \<and> concat (map (\<lambda>h. concat (map (\<lambda>t. [f h t, g h t]) ts)) hs) ! (2 * k + 1) = g h t"
proof -
  let ?js = "List.product hs ts"
  from assms have "k < length ?js"
    unfolding concat_nested_pairs by (simp add: length_concat_pairs)
  from nth_concat_pairs[OF this, of "\<lambda>j. f (fst j) (snd j)" "\<lambda>j. g (fst j) (snd j)"]
  show ?thesis unfolding concat_nested_pairs by blast
qed

section \<open>Ranges and the histogram grid\<close>

lemma set_py_range2: "set (py_range2 a b) = {a..<b}"
  by (auto simp: py_range2_def)


lemma gid_loop_outside: "pop_name \<notin> set order \<Longrightarrow> gid_loop t pop_name order g = []"
  by (induction order arbitrary: g) (auto simp: Let_def)

lemma ceiling_5_2: "\<lceil>(5::rat) / 2\<rceil> = 3"
  by (rule ceiling_unique) simp_all


lemma histogram_no_data_grid:
  assumes "0 < bin_size" and "0 \<le> duration a"
    and "get_population_spikes a pop_name = Inr xs"
    and "xs = [] \<or> get_population_cell_count a pop_name = IntV 0"
  shows "compute_firing_rate_histogram a pop_name bin_size =
           Inr (map (\<lambda>i. fadd (fmul (py_float (int i)) bin_size) (fdiv bin_size 2))
                  [0..<nat \<lfloor>fdiv (duration a) bin_size\<rfloor>],
                replicate (nat \<lfloor>fdiv (duration a) bin_size\<rfloor>) (Fin 0))"
proof -
  from assms(1,2) have q: "0 \<le> fdiv (duration a) bin_size" by (intro fdiv_nonneg_pos)
  then have n: "py_int (fdiv (duration a) bin_size) = \<lfloor>fdiv (duration a) bin_size\<rfloor>"
    by (rule py_int_nonneg)
  from q have nn: "\<not> \<lfloor>fdiv (duration a) bin_size\<rfloor> < 0" by simp
  from assms(1) have b: "bin_size \<noteq> 0" by simp
  from assms(4) have c: "length xs = 0 \<or> get_population_cell_count a pop_name = IntV 0" by simp
  show ?thesis
    unfolding compute_firing_rate_histogram_def assms(3) Let_def
    using c b n nn by (simp add: py_range_def)
qed

section \<open>The pulse schedule\<close>

text \<open>
  C1 (as amended). With a positive frequency and a window that ends after it starts, the
  pulse-time helper returns as many onsets as the floor of the double that
  \<open>(stim_end - stim_start) * freq / 1000.0\<close> evaluates to, each of the three
  operations rounded to a double. The \<open>i\<close>-th onset is the double
  \<open>stim_start + i * (1000.0 / freq)\<close>, again with each operation rounded, and the
  onsets never decrease. On a network whose targeted cells each have a section,
  \<open>apply_tms_from_params\<close> returns, cell after cell in roster order and for exactly
  these onsets in this order, two clamps on the section that the soma lookup gives for
  the cell: the first starts at the onset, the second half a width later, both last
  half a width, and their amplitudes are the converted field and its exact negative, so
  they sum to zero. The point processes added to the simulator are exactly the clamps
  returned. Doubles are read as above: no intermediate result leaves the range of the
  finite normal doubles.
\<close>

theorem C1_pulse_schedule:
  assumes "0 < freq_Hz p" and "stim_start_ms p < stim_end_ms p"
  shows "\<exists>ts. get_tms_pulse_times \<lparr>tms_params = Some p\<rparr> = Inr ts
     \<and> int (length ts)
         = \<lfloor>fdiv (fmul (fsub (stim_end_ms p) (stim_start_ms p)) (freq_Hz p)) 1000\<rfloor>
     \<and> (\<forall>i<length ts.
           ts ! i = fadd (stim_start_ms p) (fmul (py_float (int i)) (fdiv 1000 (freq_Hz p))))
     \<and> (\<forall>i. Suc i < length ts \<longrightarrow> ts ! i \<le> ts ! Suc i)
     \<and> ((\<forall>c\<in>set (net_cells s). tags_pop c = Some target_pop \<longrightarrow> secs c \<noteq> []) \<longrightarrow>
          (\<exists>hs clamps s'.
             map find_soma_sec (filter (\<lambda>c. tags_pop c = Some target_pop) (net_cells s))
               = map Inr hs
           \<and> apply_tms_from_params s \<lparr>tms_params = Some p\<rparr> target_pop = Inr (clamps, s')
           \<and> clamps = concat (map (\<lambda>h. concat (map (\<lambda>t.
                 [\<lparr>ic_sec = h, ic_delay = t, ic_dur = fdiv (width_ms p) 2,
                    ic_amp = convert_field_to_current (ef_amp_V_per_m p) target_pop ''soma''\<rparr>,
                  \<lparr>ic_sec = h, ic_delay = fadd t (fdiv (width_ms p) 2),
                    ic_dur = fdiv (width_ms p) 2,
                    ic_amp = - convert_field_to_current (ef_amp_V_per_m p) target_pop ''soma''\<rparr>])
                 ts)) hs)
           \<and> point_processes s' = point_processes s @ clamps
           \<and> (\<forall>k. 2 * k + 1 < length clamps \<longrightarrow>
                 ic_dur (clamps ! (2 * k)) = fdiv (width_ms p) 2
               \<and> ic_dur (clamps ! (2 * k + 1)) = fdiv (width_ms p) 2
               \<and> ic_amp (clamps ! (2 * k + 1)) = - ic_amp (clamps ! (2 * k))
               \<and> ic_amp (clamps ! (2 * k)) + ic_amp (clamps ! (2 * k + 1)) = 0)))"
proof -
  let ?x = "fdiv (fmul (fsub (stim_end_ms p) (stim_start_ms p)) (freq_Hz p)) 1000"
  let ?iv = "fdiv 1000 (freq_Hz p)"
  let ?a = "convert_field_to_current (ef_amp_V_per_m p) target_pop ''soma''"
  let ?on = "\<lambda>i. fadd (stim_start_ms p) (fmul (py_float (int i)) ?iv)"
  let ?ts = "map ?on [0..<nat \<lfloor>?x\<rfloor>]"
  let ?f = "\<lambda>h t. \<lparr>ic_sec = h, ic_delay = t, ic_dur = fdiv (width_ms p) 2, ic_amp = ?a\<rparr>"
  let ?g = "\<lambda>h t. \<lparr>ic_sec = h, ic_delay = fadd t (fdiv (width_ms p) 2),
                     ic_dur = fdiv (width_ms p) 2, ic_amp = - ?a\<rparr>"
  have f0: "freq_Hz p \<noteq> 0" using assms(1) by simp
  have d0: "0 \<le> fsub (stim_end_ms p) (stim_start_ms p)"
    using assms(2) by (intro fsub_nonneg) simp
  have x0: "0 \<le> ?x"
    using assms(1) d0 by (intro fdiv_nonneg_pos fmul_nonneg_nonneg) simp_all
  have iv0: "0 \<le> ?iv" using assms(1) fdiv_pos_pos[of 1000 "freq_Hz p"] by simp
  have n: "helper_n_pulses p = \<lfloor>?x\<rfloor>" "applicator_n_pulses p = \<lfloor>?x\<rfloor>"
    using x0 by (simp_all add: helper_n_pulses_def applicator_n_pulses_def py_int_nonneg)
  have get: "get_tms_pulse_times \<lparr>tms_params = Some p\<rparr> = Inr ?ts"
    using f0 by (simp add: get_tms_pulse_times_def n py_range_def)
  have len: "int (length ?ts) = \<lfloor>?x\<rfloor>" using x0 by simp
  have nth: "\<forall>i<length ?ts. ?ts ! i = ?on i" by simp
  have step: "\<forall>i. Suc i < length ?ts \<longrightarrow> ?ts ! i \<le> ?ts ! Suc i"
  proof (intro allI impI)
    fix i assume h: "Suc i < length ?ts"
    then have a: "?ts ! i = ?on i" and b: "?ts ! Suc i = ?on (Suc i)" by simp_all
    have "py_float (int i) \<le> py_float (int (Suc i))" by (rule py_float_mono) simp
    then have "fmul (py_float (int i)) ?iv \<le> fmul (py_float (int (Suc i))) ?iv"
      by (rule fmul_mono_left[OF iv0])
    then have "?on i \<le> ?on (Suc i)" by (rule fadd_mono_right)
    then show "?ts ! i \<le> ?ts ! Suc i" unfolding a b .
  qed
  have app: "(\<forall>c\<in>set (net_cells s). tags_pop c = Some target_pop \<longrightarrow> secs c \<noteq> []) \<longrightarrow>
          (\<exists>hs clamps s'.
             map find_soma_sec (filter (\<lambda>c. tags_pop c = Some target_pop) (net_cells s))
               = map Inr hs
           \<and> apply_tms_from_params s \<lparr>tms_params = Some p\<rparr> target_pop = Inr (clamps, s')
           \<and> clamps = concat (map (\<lambda>h. concat (map (\<lambda>t. [?f h t, ?g h t]) ?ts)) hs)
           \<and> point_processes s' = point_processes s @ clamps
           \<and> (\<forall>k. 2 * k + 1 < length clamps \<longrightarrow>
                 ic_dur (clamps ! (2 * k)) = fdiv (width_ms p) 2
               \<and> ic_dur (clamps ! (2 * k + 1)) = fdiv (width_ms p) 2
               \<and> ic_amp (clamps ! (2 * k + 1)) = - ic_amp (clamps ! (2 * k))
               \<and> ic_amp (clamps ! (2 * k)) + ic_amp (clamps ! (2 * k + 1)) = 0))"
  proof
    assume sec: "\<forall>c\<in>set (net_cells s). tags_pop c = Some target_pop \<longrightarrow> secs c \<noteq> []"
    from cell_loop_ok[OF sec, of "stim_start_ms p" ?iv ?a "width_ms p" "applicator_n_pulses p"
        "[]" "point_processes s"]
    obtain hs where hs:
      "map find_soma_sec (filter (\<lambda>c. tags_pop c = Some target_pop) (net_cells s)) = map Inr hs"
      and cl: "cell_loop target_pop (stim_start_ms p) ?iv ?a (width_ms p)
          (applicator_n_pulses p) (net_cells s) ([], point_processes s)
        = Inr ([] @ concat (map (\<lambda>h. concat (map (\<lambda>t. [?f h t, ?g h t])
                   (map ?on (py_range (applicator_n_pulses p))))) hs),
               point_processes s @ concat (map (\<lambda>h. concat (map (\<lambda>t. [?f h t, ?g h t])
                   (map ?on (py_range (applicator_n_pulses p))))) hs))"
      by blast
    let ?clamps = "concat (map (\<lambda>h. concat (map (\<lambda>t. [?f h t, ?g h t]) ?ts)) hs)"
    have pr: "map ?on (py_range (applicator_n_pulses p)) = ?ts"
      by (simp add: n py_range_def)
    have res: "apply_tms_from_params s \<lparr>tms_params = Some p\<rparr> target_pop
                 = Inr (?clamps, s\<lparr>point_processes := point_processes s @ ?clamps\<rparr>)"
      using f0 cl unfolding pr by (simp add: apply_tms_from_params_def Let_def)
    have pairs: "\<forall>k. 2 * k + 1 < length ?clamps \<longrightarrow>
                 ic_dur (?clamps ! (2 * k)) = fdiv (width_ms p) 2
               \<and> ic_dur (?clamps ! (2 * k + 1)) = fdiv (width_ms p) 2
               \<and> ic_amp (?clamps ! (2 * k + 1)) = - ic_amp (?clamps ! (2 * k))
               \<and> ic_amp (?clamps ! (2 * k)) + ic_amp (?clamps ! (2 * k + 1)) = 0"
    proof (intro allI impI)
      fix k assume "2 * k + 1 < length ?clamps"
      from nested_pairs_nth[OF this] obtain h t where
        "?clamps ! (2 * k) = ?f h t" "?clamps ! (2 * k + 1) = ?g h t" by blast
      then show "ic_dur (?clamps ! (2 * k)) = fdiv (width_ms p) 2
               \<and> ic_dur (?clamps ! (2 * k + 1)) = fdiv (width_ms p) 2
               \<and> ic_amp (?clamps ! (2 * k + 1)) = - ic_amp (?clamps ! (2 * k))
               \<and> ic_amp (?clamps ! (2 * k)) + ic_amp (?clamps ! (2 * k + 1)) = 0"
        by simp
    qed
    show "\<exists>hs clamps s'.
             map find_soma_sec (filter (\<lambda>c. tags_pop c = Some target_pop) (net_cells s))
               = map Inr hs
           \<and> apply_tms_from_params s \<lparr>tms_params = Some p\<rparr> target_pop = Inr (clamps, s')
           \<and> clamps = concat (map (\<lambda>h. concat (map (\<lambda>t. [?f h t, ?g h t]) ?ts)) hs)
           \<and> point_processes s' = point_processes s @ clamps
           \<and> (\<forall>k. 2 * k + 1 < length clamps \<longrightarrow>
                 ic_dur (clamps ! (2 * k)) = fdiv (width_ms p) 2
               \<and> ic_dur (clamps ! (2 * k + 1)) = fdiv (width_ms p) 2
               \<and> ic_amp (clamps ! (2 * k + 1)) = - ic_amp (clamps ! (2 * k))
               \<and> ic_amp (clamps ! (2 * k)) + ic_amp (clamps ! (2 * k + 1)) = 0)"
      apply (rule exI[of _ hs])
      apply (rule exI[of _ ?clamps])
      apply (rule exI[of _ "s\<lparr>point_processes := point_processes s @ ?clamps\<rparr>"])
      using hs res pairs by simp
  qed
  show ?thesis
    apply (rule exI[of _ ?ts])
    using get len nth step app by blast
qed

theorem C1_pulse_schedule_witness:
  "(0::rat) < 10 \<and> (500::rat) < 1500
   \<and> get_tms_pulse_times \<lparr>tms_params = Some \<lparr>ef_amp_V_per_m = 40, freq_Hz = 10,
         stim_start_ms = 500, stim_end_ms = 1500, width_ms = 1\<rparr>\<rparr>
       = Inr [500, 600, 700, 800, 900, 1000, 1100, 1200, 1300, 1400]
   \<and> \<lfloor>fdiv (fmul (fsub 1500 500) 10) 1000\<rfloor> = 10
   \<and> (\<exists>clamps s'. apply_tms_from_params
          \<lparr>net_cells = [\<lparr>tags_pop = Some ''HL23PV'', secs = [(''soma_0'', 3)]\<rparr>,
                        \<lparr>tags_pop = Some ''HL23PYR'', secs = [(''dend'', 5), (''soma'', 7)]\<rparr>],
            point_processes = []\<rparr>
          \<lparr>tms_params = Some \<lparr>ef_amp_V_per_m = 40, freq_Hz = 10,
             stim_start_ms = 500, stim_end_ms = 1500, width_ms = 1\<rparr>\<rparr> ''HL23PYR''
            = Inr (clamps, s')
        \<and> length clamps = 20
        \<and> take 4 clamps
            = [\<lparr>ic_sec = 7, ic_delay = 500, ic_dur = 1 / 2, ic_amp = 1\<rparr>,
               \<lparr>ic_sec = 7, ic_delay = 1001 / 2, ic_dur = 1 / 2, ic_amp = - 1\<rparr>,
               \<lparr>ic_sec = 7, ic_delay = 600, ic_dur = 1 / 2, ic_amp = 1\<rparr>,
               \<lparr>ic_sec = 7, ic_delay = 1201 / 2, ic_dur = 1 / 2, ic_amp = - 1\<rparr>]
        \<and> point_processes s' = clamps)"
proof -
  let ?p = "\<lparr>ef_amp_V_per_m = 40, freq_Hz = 10, stim_start_ms = 500, stim_end_ms = 1500,
             width_ms = (1::rat)\<rparr>"
  let ?s = "\<lparr>net_cells = [\<lparr>tags_pop = Some ''HL23PV'', secs = [(''soma_0'', 3)]\<rparr>,
                        \<lparr>tags_pop = Some ''HL23PYR'', secs = [(''dend'', 5), (''soma'', 7)]\<rparr>],
            point_processes = []\<rparr>"
  have h1: "0 < freq_Hz ?p" by simp
  have h2: "stim_start_ms ?p < stim_end_ms ?p" by simp
  have h3: "\<forall>c\<in>set (net_cells ?s). tags_pop c = Some ''HL23PYR'' \<longrightarrow> secs c \<noteq> []" by simp
  have ev: "get_tms_pulse_times \<lparr>tms_params = Some ?p\<rparr>
              = Inr [500, 600, 700, 800, 900, 1000, 1100, 1200, 1300, 1400]"
    by (simp add: get_tms_pulse_times_def helper_n_pulses_def py_int_def py_range_def
        float_eval upt_rec)
  have soma: "map find_soma_sec (filter (\<lambda>c. tags_pop c = Some ''HL23PYR'') (net_cells ?s))
                = [Inr 7]"
    by (simp add: find_soma_sec_def)
  have amp: "convert_field_to_current 40 ''HL23PYR'' ''soma'' = 1"
    by (simp add: convert_field_to_current_def geometry_def dict_get_def tms_ev)
  have half: "fdiv 1 2 = 1 / 2" "fadd 500 (1 / 2) = 1001 / 2" "fadd 600 (1 / 2) = 1201 / 2"
    by (simp_all only: tms_ev)
  from C1_pulse_schedule [OF h1 h2, of ?s "''HL23PYR''"] h3
  obtain ts hs clamps s' where ts: "get_tms_pulse_times \<lparr>tms_params = Some ?p\<rparr> = Inr ts"
    and len: "int (length ts)
       = \<lfloor>fdiv (fmul (fsub (stim_end_ms ?p) (stim_start_ms ?p)) (freq_Hz ?p)) 1000\<rfloor>"
    and hs: "map find_soma_sec (filter (\<lambda>c. tags_pop c = Some ''HL23PYR'') (net_cells ?s))
               = map Inr hs"
    and res: "apply_tms_from_params ?s \<lparr>tms_params = Some ?p\<rparr> ''HL23PYR'' = Inr (clamps, s')"
    and cl: "clamps = concat (map (\<lambda>h. concat (map (\<lambda>t.
                 [\<lparr>ic_sec = h, ic_delay = t, ic_dur = fdiv (width_ms ?p) 2,
                    ic_amp = convert_field_to_current (ef_amp_V_per_m ?p) ''HL23PYR'' ''soma''\<rparr>,
                  \<lparr>ic_sec = h, ic_delay = fadd t (fdiv (width_ms ?p) 2),
                    ic_dur = fdiv (width_ms ?p) 2,
                    ic_amp = - convert_field_to_current (ef_amp_V_per_m ?p) ''HL23PYR'' ''soma''\<rparr>])
                 ts)) hs)"
    and pp: "point_processes s' = point_processes ?s @ clamps"
    by blast
  from ts ev have t: "ts = [500, 600, 700, 800, 900, 1000, 1100, 1200, 1300, 1400]" by simp
  from hs soma have h: "hs = [7]" by auto
  from len t have fl: "\<lfloor>fdiv (fmul (fsub 1500 500) 10) 1000\<rfloor> = 10" by simp
  from cl have l: "length clamps = 20" unfolding t h by simp
  from cl have tk: "take 4 clamps
            = [\<lparr>ic_sec = 7, ic_delay = 500, ic_dur = 1 / 2, ic_amp = 1\<rparr>,
               \<lparr>ic_sec = 7, ic_delay = 1001 / 2, ic_dur = 1 / 2, ic_amp = - 1\<rparr>,
               \<lparr>ic_sec = 7, ic_delay = 600, ic_dur = 1 / 2, ic_amp = 1\<rparr>,
               \<lparr>ic_sec = 7, ic_delay = 1201 / 2, ic_dur = 1 / 2, ic_amp = - 1\<rparr>]"
    unfolding t h by (simp add: amp half)
  from pp have p': "point_processes s' = clamps" by simp
  from ev fl res l tk p' show ?thesis by simp
qed

text \<open>
  The claim as stated fails in double arithmetic. From 100.1 to 1100.1 ms at 10 Hz the
  code schedules 9 pulses, where the floor of the exact product is 10. From 0.3 to
  1000.3 ms it schedules 10, where the exact product of the two doubles has floor 9. At
  30 Hz from 2000 ms the first four onsets are not equally spaced: the third minus the
  second differs from the fourth minus the third. And from \<open>2 ^ 53\<close> ms at 1000 Hz
  the first two onsets are equal, so the onsets are not strictly increasing.
\<close>

theorem C1_counterexample:
  "map_sum id length (get_tms_pulse_times \<lparr>tms_params = Some \<lparr>ef_amp_V_per_m = 40,
       freq_Hz = 10, stim_start_ms = 1001 / 10, stim_end_ms = 11001 / 10, width_ms = 1\<rparr>\<rparr>)
     = Inr 9
   \<and> \<lfloor>((11001 / 10 :: rat) - 1001 / 10) * 10 / 1000\<rfloor> = 10
   \<and> map_sum id length (get_tms_pulse_times \<lparr>tms_params = Some \<lparr>ef_amp_V_per_m = 40,
       freq_Hz = 10, stim_start_ms = 3 / 10, stim_end_ms = 10003 / 10, width_ms = 1\<rparr>\<rparr>)
     = Inr 10
   \<and> \<lfloor>(round_double (10003 / 10) - round_double (3 / 10)) * 10 / 1000\<rfloor> = 9
   \<and> map_sum id (take 4) (get_tms_pulse_times \<lparr>tms_params = Some \<lparr>ef_amp_V_per_m = 60,
       freq_Hz = 30, stim_start_ms = 2000, stim_end_ms = 3000, width_ms = 1\<rparr>\<rparr>)
     = Inr [2000, 8942694572578133 / 4398046511104, 4544648061474133 / 2199023255552, 2100]
   \<and> (4544648061474133 / 2199023255552 :: rat) - 8942694572578133 / 4398046511104
       \<noteq> 2100 - 4544648061474133 / 2199023255552
   \<and> map_sum id (take 2) (get_tms_pulse_times \<lparr>tms_params = Some \<lparr>ef_amp_V_per_m = 60,
       freq_Hz = 1000, stim_start_ms = 9007199254740992, stim_end_ms = 9007199254741992,
       width_ms = 1\<rparr>\<rparr>)
     = Inr [9007199254740992, 9007199254740992]"
proof -
  have c1: "map_sum id length (get_tms_pulse_times \<lparr>tms_params = Some \<lparr>ef_amp_V_per_m = 40,
       freq_Hz = 10, stim_start_ms = 1001 / 10, stim_end_ms = 11001 / 10, width_ms = 1\<rparr>\<rparr>)
     = Inr 9"
    by (simp add: get_tms_pulse_times_def helper_n_pulses_def py_range_def tms_ev)
  have c2: "\<lfloor>((11001 / 10 :: rat) - 1001 / 10) * 10 / 1000\<rfloor> = 10" by simp
  have c3: "map_sum id length (get_tms_pulse_times \<lparr>tms_params = Some \<lparr>ef_amp_V_per_m = 40,
       freq_Hz = 10, stim_start_ms = 3 / 10, stim_end_ms = 10003 / 10, width_ms = 1\<rparr>\<rparr>)
     = Inr 10"
    by (simp add: get_tms_pulse_times_def helper_n_pulses_def py_range_def tms_ev)
  have c4: "\<lfloor>(round_double (10003 / 10) - round_double (3 / 10)) * 10 / 1000\<rfloor> = 9"
    by (simp only: tms_ev) code_simp
  have u4: "[0..<4] = [0, 1, 2, 3::nat]" by (simp add: upt_rec)
  have u2: "[0..<2] = [0, 1::nat]" by (simp add: upt_rec)
  have t4: "take 4 [0..<30] = [0, 1, 2, 3::nat]" using u4 by simp
  have t2: "take 2 [0..<1000] = [0, 1::nat]" using u2 by simp
  have c5: "map_sum id (take 4) (get_tms_pulse_times \<lparr>tms_params = Some \<lparr>ef_amp_V_per_m = 60,
       freq_Hz = 30, stim_start_ms = 2000, stim_end_ms = 3000, width_ms = 1\<rparr>\<rparr>)
     = Inr [2000, 8942694572578133 / 4398046511104, 4544648061474133 / 2199023255552, 2100]"
    by (simp add: get_tms_pulse_times_def helper_n_pulses_def py_range_def take_map t4
        pyfloat_eval tms_ev del: take_upt)
  have c6: "(4544648061474133 / 2199023255552 :: rat) - 8942694572578133 / 4398046511104
       \<noteq> 2100 - 4544648061474133 / 2199023255552" by simp
  have c7: "map_sum id (take 2) (get_tms_pulse_times \<lparr>tms_params = Some \<lparr>ef_amp_V_per_m = 60,
       freq_Hz = 1000, stim_start_ms = 9007199254740992, stim_end_ms = 9007199254741992,
       width_ms = 1\<rparr>\<rparr>)
     = Inr [9007199254740992, 9007199254740992]"
    by (simp add: get_tms_pulse_times_def helper_n_pulses_def py_range_def take_map t2
        pyfloat_eval tms_ev del: take_upt)
  from c1 c2 c3 c4 c5 c6 c7 show ?thesis by blast
qed

section \<open>Field to current\<close>

text \<open>
  C3 (as amended). \<open>convert_field_to_current\<close> returns the product, a double, of the
  field and the table entry for (cell type, compartment) when the table has one, and of
  the field and the single default 0.02 otherwise, whether the cell type or only the
  compartment is missing: the fallback has two tiers, there is no default per cell
  type. It is total. The six table entries are listed.
\<close>

theorem C3_two_tier:
  "convert_field_to_current field_Vm cell_type compartment =
     fmul field_Vm (case geometry cell_type of
                   None \<Rightarrow> 2 / 100
                 | Some row \<Rightarrow> (case row compartment of None \<Rightarrow> 2 / 100 | Some k \<Rightarrow> k))
   \<and> convert_field_to_current field_Vm ''HL23PYR'' ''soma'' = fmul field_Vm (25 / 1000)
   \<and> convert_field_to_current field_Vm ''HL23PYR'' ''apical'' = fmul field_Vm (5 / 100)
   \<and> convert_field_to_current field_Vm ''HL23PYR'' ''basal'' = fmul field_Vm (3 / 100)
   \<and> convert_field_to_current field_Vm ''HL23PV'' ''soma'' = fmul field_Vm (15 / 1000)
   \<and> convert_field_to_current field_Vm ''HL23SST'' ''soma'' = fmul field_Vm (15 / 1000)
   \<and> convert_field_to_current field_Vm ''HL23VIP'' ''soma'' = fmul field_Vm (15 / 1000)"
  by (simp add: convert_field_to_current_def dict_get_def geometry_def split: option.splits)

text \<open>
  The claim as stated fails: for the cell type \<open>HL23PV\<close>, which the table has, and the
  compartment \<open>apical\<close>, which its row lacks, the factor is the global default, the
  one an unknown cell type gets.
\<close>

theorem C3_counterexample:
  "convert_field_to_current 1 ''HL23PV'' ''apical'' = round_double (2 / 100)
   \<and> convert_field_to_current 1 ''NoSuchType'' ''apical'' = round_double (2 / 100)
   \<and> convert_field_to_current 1 ''HL23PV'' ''apical''
       = convert_field_to_current 1 ''NoSuchType'' ''apical''"
  by (simp add: convert_field_to_current_def dict_get_def geometry_def fmul_def
      round_double_one round_double_idem)

section \<open>The applicator without parameters\<close>

text \<open>
  C7. For a config without \<open>tms_params\<close> the applicator returns the empty list, and the
  simulator state after the call is the state before it, whatever that state is.
\<close>

theorem C7_no_params:
  "apply_tms_from_params s (c\<lparr>tms_params := None\<rparr>) target_pop = Inr ([], s)"
  by (simp add: apply_tms_from_params_def)

section \<open>The three pulse counts\<close>

text \<open>
  C8 (as amended). The applicator, the pulse-time helper and the quick-test script
  compute the pulse count by the same expression
  \<open>int((stim_end - stim_start) * freq / 1000.0)\<close>, so the three counts agree on every
  parameter set; on the quick test's own parameters each is 10.
\<close>

theorem C8_same_count:
  "applicator_n_pulses p = helper_n_pulses p
   \<and> helper_n_pulses p = quick_test_n_pulses p
   \<and> quick_test_n_pulses (quick_test_override p) = 10
   \<and> helper_n_pulses (quick_test_override p) = 10
   \<and> applicator_n_pulses (quick_test_override p) = 10"
proof -
  have ev: "py_int (fdiv (fmul (fsub 1500 500) 10) 1000) = 10"
    by (simp add: float_eval py_int_def)
  show ?thesis
    by (simp add: applicator_n_pulses_def helper_n_pulses_def quick_test_n_pulses_def
        quick_test_override_def ev)
qed

text \<open>The claim as stated fails: no parameter set makes two of the three counts differ.\<close>

theorem C8_counterexample:
  "\<not> (\<exists>p. applicator_n_pulses p \<noteq> helper_n_pulses p
          \<or> helper_n_pulses p \<noteq> quick_test_n_pulses p
          \<or> applicator_n_pulses p \<noteq> quick_test_n_pulses p)"
  by (simp add: applicator_n_pulses_def helper_n_pulses_def quick_test_n_pulses_def)

section \<open>Degenerate schedules\<close>




section \<open>The number of handles\<close>

text \<open>
  C9 (as amended). For a config with \<open>tms_params\<close> of positive frequency and a network
  whose targeted cells each have at least one section, the applicator returns
  \<open>2 * max(0, numPulses) * C\<close> handles, where \<open>numPulses\<close> is the floor of the
  double that \<open>(stim_end - stim_start) * freq / 1000.0\<close> evaluates to, each operation
  rounded, and \<open>C\<close> the number of cells tagged with the target population; this is
  \<open>2 * numPulses * C\<close> when the window does not end before it starts. The roster is
  unchanged and the new point processes are exactly the returned handles. The handles
  come in consecutive pairs, phase 1 then phase 2, on the same section: amplitudes the
  converted field and its negative, both of duration half a width, the second starting
  half a width after the first. Doubles are read as above: no intermediate result
  leaves the range of the finite normal doubles.
\<close>

theorem C9_handle_count:
  assumes "0 < freq_Hz p"
    and "\<forall>c\<in>set (net_cells s). tags_pop c = Some target_pop \<longrightarrow> secs c \<noteq> []"
  shows "\<exists>clamps s'.
       apply_tms_from_params s \<lparr>tms_params = Some p\<rparr> target_pop = Inr (clamps, s')
     \<and> length clamps
         = 2 * nat \<lfloor>fdiv (fmul (fsub (stim_end_ms p) (stim_start_ms p)) (freq_Hz p)) 1000\<rfloor>
             * length (filter (\<lambda>c. tags_pop c = Some target_pop) (net_cells s))
     \<and> (stim_start_ms p \<le> stim_end_ms p \<longrightarrow>
          int (length clamps)
            = 2 * \<lfloor>fdiv (fmul (fsub (stim_end_ms p) (stim_start_ms p)) (freq_Hz p)) 1000\<rfloor>
                * int (length (filter (\<lambda>c. tags_pop c = Some target_pop) (net_cells s))))
     \<and> net_cells s' = net_cells s
     \<and> point_processes s' = point_processes s @ clamps
     \<and> (\<forall>k. 2 * k + 1 < length clamps \<longrightarrow>
          ic_amp (clamps ! (2 * k))
             = convert_field_to_current (ef_amp_V_per_m p) target_pop ''soma''
          \<and> ic_amp (clamps ! (2 * k + 1)) = - ic_amp (clamps ! (2 * k))
          \<and> ic_dur (clamps ! (2 * k)) = fdiv (width_ms p) 2
          \<and> ic_dur (clamps ! (2 * k + 1)) = fdiv (width_ms p) 2
          \<and> ic_delay (clamps ! (2 * k + 1))
              = fadd (ic_delay (clamps ! (2 * k))) (fdiv (width_ms p) 2)
          \<and> ic_sec (clamps ! (2 * k + 1)) = ic_sec (clamps ! (2 * k)))"
proof -
  let ?x = "fdiv (fmul (fsub (stim_end_ms p) (stim_start_ms p)) (freq_Hz p)) 1000"
  let ?iv = "fdiv 1000 (freq_Hz p)"
  let ?a = "convert_field_to_current (ef_amp_V_per_m p) target_pop ''soma''"
  let ?C = "length (filter (\<lambda>c. tags_pop c = Some target_pop) (net_cells s))"
  let ?ts = "map (\<lambda>i. fadd (stim_start_ms p) (fmul (py_float (int i)) ?iv))
               (py_range (applicator_n_pulses p))"
  let ?f = "\<lambda>h t. \<lparr>ic_sec = h, ic_delay = t, ic_dur = fdiv (width_ms p) 2, ic_amp = ?a\<rparr>"
  let ?g = "\<lambda>h t. \<lparr>ic_sec = h, ic_delay = fadd t (fdiv (width_ms p) 2),
                     ic_dur = fdiv (width_ms p) 2, ic_amp = - ?a\<rparr>"
  from cell_loop_ok[OF assms(2), of "stim_start_ms p" ?iv ?a "width_ms p"
      "applicator_n_pulses p" "[]" "point_processes s"]
  obtain hs where hs:
    "map find_soma_sec (filter (\<lambda>c. tags_pop c = Some target_pop) (net_cells s)) = map Inr hs"
    and cl: "cell_loop target_pop (stim_start_ms p) ?iv ?a (width_ms p)
        (applicator_n_pulses p) (net_cells s) ([], point_processes s)
      = Inr ([] @ concat (map (\<lambda>h. concat (map (\<lambda>t. [?f h t, ?g h t]) ?ts)) hs),
             point_processes s @ concat (map (\<lambda>h. concat (map (\<lambda>t. [?f h t, ?g h t]) ?ts)) hs))"
    by blast
  let ?clamps = "concat (map (\<lambda>h. concat (map (\<lambda>t. [?f h t, ?g h t]) ?ts)) hs)"
  have lh: "length hs = ?C" using hs by (rule soma_list_length)
  have n: "nat (applicator_n_pulses p) = nat \<lfloor>?x\<rfloor>"
    by (simp add: applicator_n_pulses_def nat_py_int)
  have lt: "length ?ts = nat \<lfloor>?x\<rfloor>" using n by (simp add: py_range_def)
  have res: "apply_tms_from_params s \<lparr>tms_params = Some p\<rparr> target_pop
               = Inr (?clamps, s\<lparr>point_processes := point_processes s @ ?clamps\<rparr>)"
    using assms(1) cl by (simp add: apply_tms_from_params_def Let_def)
  have len: "length ?clamps = 2 * nat \<lfloor>?x\<rfloor> * ?C"
    unfolding nested_pairs_length lt lh ..
  have leni: "stim_start_ms p \<le> stim_end_ms p \<longrightarrow> int (length ?clamps) = 2 * \<lfloor>?x\<rfloor> * int ?C"
  proof
    assume "stim_start_ms p \<le> stim_end_ms p"
    then have "0 \<le> fsub (stim_end_ms p) (stim_start_ms p)" by (rule fsub_nonneg)
    with assms(1) have "0 \<le> ?x"
      by (intro fdiv_nonneg_pos fmul_nonneg_nonneg) simp_all
    then have "int (nat \<lfloor>?x\<rfloor>) = \<lfloor>?x\<rfloor>" by simp
    with len show "int (length ?clamps) = 2 * \<lfloor>?x\<rfloor> * int ?C" by simp
  qed
  have pairs: "\<forall>k. 2 * k + 1 < length ?clamps \<longrightarrow>
          ic_amp (?clamps ! (2 * k)) = ?a
          \<and> ic_amp (?clamps ! (2 * k + 1)) = - ic_amp (?clamps ! (2 * k))
          \<and> ic_dur (?clamps ! (2 * k)) = fdiv (width_ms p) 2
          \<and> ic_dur (?clamps ! (2 * k + 1)) = fdiv (width_ms p) 2
          \<and> ic_delay (?clamps ! (2 * k + 1))
              = fadd (ic_delay (?clamps ! (2 * k))) (fdiv (width_ms p) 2)
          \<and> ic_sec (?clamps ! (2 * k + 1)) = ic_sec (?clamps ! (2 * k))"
  proof (intro allI impI)
    fix k assume "2 * k + 1 < length ?clamps"
    from nested_pairs_nth[OF this] obtain h t where
      "?clamps ! (2 * k) = ?f h t" "?clamps ! (2 * k + 1) = ?g h t" by blast
    then show "ic_amp (?clamps ! (2 * k)) = ?a
          \<and> ic_amp (?clamps ! (2 * k + 1)) = - ic_amp (?clamps ! (2 * k))
          \<and> ic_dur (?clamps ! (2 * k)) = fdiv (width_ms p) 2
          \<and> ic_dur (?clamps ! (2 * k + 1)) = fdiv (width_ms p) 2
          \<and> ic_delay (?clamps ! (2 * k + 1))
              = fadd (ic_delay (?clamps ! (2 * k))) (fdiv (width_ms p) 2)
          \<and> ic_sec (?clamps ! (2 * k + 1)) = ic_sec (?clamps ! (2 * k))"
      by simp
  qed
  show ?thesis
    apply (rule exI[of _ ?clamps])
    apply (rule exI[of _ "s\<lparr>point_processes := point_processes s @ ?clamps\<rparr>"])
    using res len leni pairs by simp
qed

theorem C9_handle_count_witness:
  "\<exists>clamps s'. apply_tms_from_params
      \<lparr>net_cells = [\<lparr>tags_pop = Some ''HL23PYR'', secs = [(''soma_0'', 0)]\<rparr>,
                    \<lparr>tags_pop = Some ''HL23PV'', secs = [(''soma_0'', 1)]\<rparr>,
                    \<lparr>tags_pop = Some ''HL23PYR'', secs = [(''dend'', 2)]\<rparr>],
        point_processes = []\<rparr>
      \<lparr>tms_params = Some \<lparr>ef_amp_V_per_m = 40, freq_Hz = 10, stim_start_ms = 500,
                           stim_end_ms = 1500, width_ms = 1\<rparr>\<rparr> ''HL23PYR'' = Inr (clamps, s')
     \<and> length clamps = 40"
proof -
  let ?p = "\<lparr>ef_amp_V_per_m = 40, freq_Hz = 10, stim_start_ms = 500, stim_end_ms = 1500,
             width_ms = (1::rat)\<rparr>"
  let ?s = "\<lparr>net_cells = [\<lparr>tags_pop = Some ''HL23PYR'', secs = [(''soma_0'', 0)]\<rparr>,
                    \<lparr>tags_pop = Some ''HL23PV'', secs = [(''soma_0'', 1)]\<rparr>,
                    \<lparr>tags_pop = Some ''HL23PYR'', secs = [(''dend'', 2)]\<rparr>],
        point_processes = []\<rparr>"
  have h1: "0 < freq_Hz ?p" by simp
  have h2: "\<forall>c\<in>set (net_cells ?s). tags_pop c = Some ''HL23PYR'' \<longrightarrow> secs c \<noteq> []" by simp
  have fl: "\<lfloor>fdiv (fmul (fsub 1500 500) 10) 1000\<rfloor> = 10" by (simp add: float_eval)
  from C9_handle_count [OF h1 h2]
  obtain clamps s' where r: "apply_tms_from_params ?s \<lparr>tms_params = Some ?p\<rparr> ''HL23PYR'' = Inr (clamps, s')"
    and l: "length clamps
         = 2 * nat \<lfloor>fdiv (fmul (fsub (stim_end_ms ?p) (stim_start_ms ?p)) (freq_Hz ?p)) 1000\<rfloor>
             * length (filter (\<lambda>c. tags_pop c = Some ''HL23PYR'') (net_cells ?s))"
    by blast
  from l have "length clamps = 40" by (simp add: fl)
  with r show ?thesis by blast
qed

text \<open>
  The claim as stated fails: for a window that ends before it starts the floor is
  negative and no handle is created, so the length is not \<open>2 * numPulses * C\<close>; a
  targeted cell without sections makes the applicator raise \<open>IndexError\<close> at
  \<open>list(cell.secs.keys())[0]\<close>; and in double arithmetic one targeted cell gets 18
  handles from 100.1 to 1100.1 ms at 10 Hz, where the exact product has floor 10, and
  20 handles from 0.3 to 1000.3 ms, where the exact product of the two doubles has
  floor 9.
\<close>

theorem C9_counterexample:
  "apply_tms_from_params
      \<lparr>net_cells = [\<lparr>tags_pop = Some ''HL23PYR'', secs = [(''soma_0'', 0)]\<rparr>], point_processes = []\<rparr>
      \<lparr>tms_params = Some \<lparr>ef_amp_V_per_m = 60, freq_Hz = 10, stim_start_ms = 1500,
                           stim_end_ms = 500, width_ms = 1\<rparr>\<rparr> ''HL23PYR''
     = Inr ([], \<lparr>net_cells = [\<lparr>tags_pop = Some ''HL23PYR'', secs = [(''soma_0'', 0)]\<rparr>],
                 point_processes = []\<rparr>)
   \<and> int (length ([] :: iclamp list))
       \<noteq> 2 * \<lfloor>((500::rat) - 1500) * 10 / 1000\<rfloor>
           * int (length (filter (\<lambda>c. tags_pop c = Some ''HL23PYR'')
                    [\<lparr>tags_pop = Some ''HL23PYR'', secs = [(''soma_0'', 0)]\<rparr>]))
   \<and> apply_tms_from_params
      \<lparr>net_cells = [\<lparr>tags_pop = Some ''HL23PYR'', secs = []\<rparr>], point_processes = []\<rparr>
      \<lparr>tms_params = Some \<lparr>ef_amp_V_per_m = 60, freq_Hz = 10, stim_start_ms = 500,
                           stim_end_ms = 1500, width_ms = 1\<rparr>\<rparr> ''HL23PYR''
     = Inl IndexError
   \<and> map_sum id (\<lambda>r. length (fst r)) (apply_tms_from_params
      \<lparr>net_cells = [\<lparr>tags_pop = Some ''HL23PYR'', secs = [(''soma_0'', 0)]\<rparr>], point_processes = []\<rparr>
      \<lparr>tms_params = Some \<lparr>ef_amp_V_per_m = 40, freq_Hz = 10, stim_start_ms = 1001 / 10,
                           stim_end_ms = 11001 / 10, width_ms = 1\<rparr>\<rparr> ''HL23PYR'')
     = Inr 18
   \<and> 2 * \<lfloor>((11001 / 10 :: rat) - 1001 / 10) * 10 / 1000\<rfloor> * 1 = 20
   \<and> map_sum id (\<lambda>r. length (fst r)) (apply_tms_from_params
      \<lparr>net_cells = [\<lparr>tags_pop = Some ''HL23PYR'', secs = [(''soma_0'', 0)]\<rparr>], point_processes = []\<rparr>
      \<lparr>tms_params = Some \<lparr>ef_amp_V_per_m = 40, freq_Hz = 10, stim_start_ms = 3 / 10,
                           stim_end_ms = 10003 / 10, width_ms = 1\<rparr>\<rparr> ''HL23PYR'')
     = Inr 20
   \<and> 2 * \<lfloor>(round_double (10003 / 10) - round_double (3 / 10)) * 10 / 1000\<rfloor> * 1 = 18"
  proof -
  have e2: "2 * \<lfloor>(round_double (10003 / 10) - round_double (3 / 10)) * 10 / 1000\<rfloor> * 1 = 18"
    by (simp only: tms_ev) code_simp
  have c1: "apply_tms_from_params
      \<lparr>net_cells = [\<lparr>tags_pop = Some ''HL23PYR'', secs = [(''soma_0'', 0)]\<rparr>], point_processes = []\<rparr>
      \<lparr>tms_params = Some \<lparr>ef_amp_V_per_m = 60, freq_Hz = 10, stim_start_ms = 1500,
                           stim_end_ms = 500, width_ms = 1\<rparr>\<rparr> ''HL23PYR''
     = Inr ([], \<lparr>net_cells = [\<lparr>tags_pop = Some ''HL23PYR'', secs = [(''soma_0'', 0)]\<rparr>],
                 point_processes = []\<rparr>)"
    by (simp add: apply_tms_from_params_def applicator_n_pulses_def float_eval py_int_def py_range_def
        find_soma_sec_def Let_def)
  have c2: "int (length ([] :: iclamp list))
       \<noteq> 2 * \<lfloor>((500::rat) - 1500) * 10 / 1000\<rfloor>
           * int (length (filter (\<lambda>c. tags_pop c = Some ''HL23PYR'')
                    [\<lparr>tags_pop = Some ''HL23PYR'', secs = [(''soma_0'', 0)]\<rparr>]))"
    by simp
  have c3: "apply_tms_from_params
      \<lparr>net_cells = [\<lparr>tags_pop = Some ''HL23PYR'', secs = []\<rparr>], point_processes = []\<rparr>
      \<lparr>tms_params = Some \<lparr>ef_amp_V_per_m = 60, freq_Hz = 10, stim_start_ms = 500,
                           stim_end_ms = 1500, width_ms = 1\<rparr>\<rparr> ''HL23PYR''
     = Inl IndexError"
    by (simp add: apply_tms_from_params_def find_soma_sec_def Let_def)
  have c4: "map_sum id (\<lambda>r. length (fst r)) (apply_tms_from_params
      \<lparr>net_cells = [\<lparr>tags_pop = Some ''HL23PYR'', secs = [(''soma_0'', 0)]\<rparr>], point_processes = []\<rparr>
      \<lparr>tms_params = Some \<lparr>ef_amp_V_per_m = 40, freq_Hz = 10, stim_start_ms = 1001 / 10,
                           stim_end_ms = 11001 / 10, width_ms = 1\<rparr>\<rparr> ''HL23PYR'')
     = Inr 18"
    by (simp add: apply_tms_from_params_def applicator_n_pulses_def tms_ev py_range_def
        find_soma_sec_def pulse_loop_eq Let_def comp_def length_concat_pairs)
  have c5: "2 * \<lfloor>((11001 / 10 :: rat) - 1001 / 10) * 10 / 1000\<rfloor> * 1 = 20" by simp
  have c6: "map_sum id (\<lambda>r. length (fst r)) (apply_tms_from_params
      \<lparr>net_cells = [\<lparr>tags_pop = Some ''HL23PYR'', secs = [(''soma_0'', 0)]\<rparr>], point_processes = []\<rparr>
      \<lparr>tms_params = Some \<lparr>ef_amp_V_per_m = 40, freq_Hz = 10, stim_start_ms = 3 / 10,
                           stim_end_ms = 10003 / 10, width_ms = 1\<rparr>\<rparr> ''HL23PYR'')
     = Inr 20"
    by (simp add: apply_tms_from_params_def applicator_n_pulses_def tms_ev py_range_def
        find_soma_sec_def pulse_loop_eq Let_def comp_def length_concat_pairs)
  from c1 c2 c3 c4 c5 c6 e2 show ?thesis by blast
qed

section \<open>Population ids from the cell-count table\<close>

text \<open>
  C10. When the record has no roster and the ids come from the \<open>cellNumber\<close> table
  (its counts for the four populations not negative), \<open>get_population_gids\<close> gives
  \<open>HL23PYR\<close>, \<open>HL23PV\<close>, \<open>HL23SST\<close>, \<open>HL23VIP\<close>, in this order, consecutive integer
  ranges starting at 0, each as long as the population's count; the ranges of two
  different populations are disjoint, together they are exactly the integers from 0
  below the sum of the four counts, and any other population name gives the empty list.
\<close>

theorem C10_gid_ranges:
  assumes "data_net_cells a = None" and "cellNumber a = Some t"
    and "\<forall>p\<in>set pop_order. 0 \<le> dict_get t p 0"
  shows "get_population_gids a ''HL23PYR'' = py_range2 0 (dict_get t ''HL23PYR'' 0)
     \<and> get_population_gids a ''HL23PV''
         = py_range2 (dict_get t ''HL23PYR'' 0) (dict_get t ''HL23PYR'' 0 + dict_get t ''HL23PV'' 0)
     \<and> get_population_gids a ''HL23SST''
         = py_range2 (dict_get t ''HL23PYR'' 0 + dict_get t ''HL23PV'' 0)
             (dict_get t ''HL23PYR'' 0 + dict_get t ''HL23PV'' 0 + dict_get t ''HL23SST'' 0)
     \<and> get_population_gids a ''HL23VIP''
         = py_range2 (dict_get t ''HL23PYR'' 0 + dict_get t ''HL23PV'' 0 + dict_get t ''HL23SST'' 0)
             (dict_get t ''HL23PYR'' 0 + dict_get t ''HL23PV'' 0 + dict_get t ''HL23SST'' 0
                + dict_get t ''HL23VIP'' 0)
     \<and> (\<forall>p\<in>set pop_order. \<forall>q\<in>set pop_order. p \<noteq> q \<longrightarrow>
           set (get_population_gids a p) \<inter> set (get_population_gids a q) = {})
     \<and> (\<Union>p\<in>set pop_order. set (get_population_gids a p))
         = {0..<dict_get t ''HL23PYR'' 0 + dict_get t ''HL23PV'' 0 + dict_get t ''HL23SST'' 0
                + dict_get t ''HL23VIP'' 0}
     \<and> (\<forall>p. p \<notin> set pop_order \<longrightarrow> get_population_gids a p = [])"
proof -
  let ?n1 = "dict_get t ''HL23PYR'' 0" and ?n2 = "dict_get t ''HL23PV'' 0"
  and ?n3 = "dict_get t ''HL23SST'' 0" and ?n4 = "dict_get t ''HL23VIP'' 0"
  have nn: "0 \<le> ?n1" "0 \<le> ?n2" "0 \<le> ?n3" "0 \<le> ?n4"
    using assms(3) by (simp_all add: pop_order_def)
  have g1: "get_population_gids a ''HL23PYR'' = py_range2 0 ?n1"
    using assms(1,2) by (simp add: get_population_gids_def pop_order_def Let_def)
  have g2: "get_population_gids a ''HL23PV'' = py_range2 ?n1 (?n1 + ?n2)"
    using assms(1,2) by (simp add: get_population_gids_def pop_order_def Let_def)
  have g3: "get_population_gids a ''HL23SST'' = py_range2 (?n1 + ?n2) (?n1 + ?n2 + ?n3)"
    using assms(1,2) by (simp add: get_population_gids_def pop_order_def Let_def)
  have g4: "get_population_gids a ''HL23VIP'' = py_range2 (?n1 + ?n2 + ?n3) (?n1 + ?n2 + ?n3 + ?n4)"
    using assms(1,2) by (simp add: get_population_gids_def pop_order_def Let_def)
  have disj: "\<forall>p\<in>set pop_order. \<forall>q\<in>set pop_order. p \<noteq> q \<longrightarrow>
           set (get_population_gids a p) \<inter> set (get_population_gids a q) = {}"
    using nn by (auto simp: pop_order_def g1 g2 g3 g4 set_py_range2)
  have un: "(\<Union>p\<in>set pop_order. set (get_population_gids a p)) = {0..<?n1 + ?n2 + ?n3 + ?n4}"
    using nn by (auto simp: pop_order_def g1 g2 g3 g4 set_py_range2)
  have out: "\<forall>p. p \<notin> set pop_order \<longrightarrow> get_population_gids a p = []"
    using assms(1,2) by (simp add: get_population_gids_def gid_loop_outside)
  from g1 g2 g3 g4 disj un out show ?thesis by blast
qed

theorem C10_gid_ranges_witness:
  "get_population_gids \<lparr>spikes_times = [], spikes_ids = [],
       cellNumber = Some (map_of [(''HL23PYR'', 3), (''HL23SST'', 2), (''HL23PV'', 1), (''HL23VIP'', 2)]),
       data_net_pops = None, data_net_cells = None, duration = 2000\<rparr> ''HL23SST'' = [4, 5]
   \<and> get_population_gids \<lparr>spikes_times = [], spikes_ids = [],
       cellNumber = Some (map_of [(''HL23PYR'', 3), (''HL23SST'', 2), (''HL23PV'', 1), (''HL23VIP'', 2)]),
       data_net_pops = None, data_net_cells = None, duration = 2000\<rparr> ''HL23VIP'' = [6, 7]"
proof -
  let ?t = "map_of [(''HL23PYR'', 3::int), (''HL23SST'', 2), (''HL23PV'', 1), (''HL23VIP'', 2)]"
  let ?a = "\<lparr>spikes_times = [], spikes_ids = [], cellNumber = Some ?t,
       data_net_pops = None, data_net_cells = None, duration = 2000\<rparr>"
  have h1: "data_net_cells ?a = None" by simp
  have h2: "cellNumber ?a = Some ?t" by simp
  have h3: "\<forall>p\<in>set pop_order. 0 \<le> dict_get ?t p 0" by (simp add: pop_order_def dict_get_def)
  from C10_gid_ranges [OF h1 h2 h3]
  show ?thesis by (simp add: dict_get_def py_range2_def upto_rec1)
qed

section \<open>The two resolution ladders\<close>




text \<open>
  A defect of the source beside the ladders: without a table, a population with an
  entry in \<open>net.pops\<close> gets from \<open>get_population_cell_count\<close> the \<open>cellGids\<close> list
  itself (\<open>.get('cellGids', 0)\<close>), where the docstring announces the number of cells
  and \<open>compute_firing_rate_histogram\<close> divides by the result.
\<close>

lemma cell_count_net_pops_returns_list:
  "get_population_cell_count \<lparr>spikes_times = [], spikes_ids = [], cellNumber = None,
       data_net_pops = Some (map_of [(''HL23PYR'', Some [0, 1, 2])]),
       data_net_cells = None, duration = 2000\<rparr> ''HL23PYR'' = ListV [0, 1, 2]"
  by (simp add: get_population_cell_count_def)

section \<open>The firing-rate histogram\<close>

text \<open>
  C6 (as amended). For spike times 5, 12, 12 with ids 0, 0, 1, duration 20 and a
  population that resolves to the ids 0 and 1 with count 2, the histogram with bin size
  10 has bin edges 0, 10, 20, counts 1 and 2 per bin, bin centers 5 and 15 and rates 50
  and 100 Hz.
\<close>

theorem C6_histogram:
  "get_population_gids \<lparr>spikes_times = [5, 12, 12], spikes_ids = [0, 0, 1],
       cellNumber = Some (map_of [(''HL23PYR'', 2)]), data_net_pops = None, data_net_cells = None,
       duration = 20\<rparr> ''HL23PYR'' = [0, 1]
   \<and> get_population_cell_count \<lparr>spikes_times = [5, 12, 12], spikes_ids = [0, 0, 1],
       cellNumber = Some (map_of [(''HL23PYR'', 2)]), data_net_pops = None, data_net_cells = None,
       duration = 20\<rparr> ''HL23PYR'' = IntV 2
   \<and> np_arange 0 (fadd 20 10) 10 = Inr [0, 10, 20]
   \<and> np_histogram [5, 12, 12] [0, 10, 20] = Inr [1, 2]
   \<and> compute_firing_rate_histogram \<lparr>spikes_times = [5, 12, 12], spikes_ids = [0, 0, 1],
       cellNumber = Some (map_of [(''HL23PYR'', 2)]), data_net_pops = None, data_net_cells = None,
       duration = 20\<rparr> ''HL23PYR'' 10 = Inr ([5, 15], [Fin 50, Fin 100])"
  by (simp add: compute_firing_rate_histogram_def get_population_spikes_def get_population_gids_def
      get_population_cell_count_def pop_order_def py_range2_def py_range_def dict_get_def
      np_arange_def np_histogram_def rates_of_def np_true_divide_def bin_centers_of_def
      pyfloat_eval hist_ev ceiling_5_2 upt_rec upto_rec1 numeral_2_eq_2 Let_def)

text \<open>
  The claim as stated fails: the counts are not 2 and 1 and the rates are not 100 and
  50; one spike falls in the first bin and two in the second.
\<close>

theorem C6_counterexample:
  "compute_firing_rate_histogram \<lparr>spikes_times = [5, 12, 12], spikes_ids = [0, 0, 1],
       cellNumber = Some (map_of [(''HL23PYR'', 2)]), data_net_pops = None, data_net_cells = None,
       duration = 20\<rparr> ''HL23PYR'' 10 \<noteq> Inr ([5, 15], [Fin 100, Fin 50])
   \<and> np_histogram [5, 12, 12] [0, 10, 20] \<noteq> Inr [2, 1]"
  by (simp add: compute_firing_rate_histogram_def get_population_spikes_def get_population_gids_def
      get_population_cell_count_def pop_order_def py_range2_def py_range_def dict_get_def
      np_arange_def np_histogram_def rates_of_def np_true_divide_def bin_centers_of_def
      pyfloat_eval hist_ev ceiling_5_2 upt_rec upto_rec1 numeral_2_eq_2 Let_def)

text \<open>
  C5, evaluated where it fails. With duration 25 and bin size 10, a population that
  resolves to zero cells gets a grid of \<open>int(25 / 10) = 2\<close> bins (centers 5 and 15, rates
  0 and 0), whereas \<open>ceil(25 / 10)\<close> is 3 and the same record with two cells gets the
  three bins with centers 5, 15 and 25: the branch without data truncates, the branch
  with data builds its edges with \<open>np.arange(0, duration + bin_size, bin_size)\<close>.
\<close>

theorem C5_zero_cells_grid:
  "get_population_cell_count \<lparr>spikes_times = [5, 12, 12], spikes_ids = [0, 0, 1],
       cellNumber = Some (map_of [(''HL23PYR'', 0)]), data_net_pops = None, data_net_cells = None,
       duration = 25\<rparr> ''HL23PYR'' = IntV 0
   \<and> compute_firing_rate_histogram \<lparr>spikes_times = [5, 12, 12], spikes_ids = [0, 0, 1],
       cellNumber = Some (map_of [(''HL23PYR'', 0)]), data_net_pops = None, data_net_cells = None,
       duration = 25\<rparr> ''HL23PYR'' 10 = Inr ([5, 15], [Fin 0, Fin 0])
   \<and> \<lceil>(25::rat) / 10\<rceil> = 3
   \<and> compute_firing_rate_histogram \<lparr>spikes_times = [5, 12, 12], spikes_ids = [0, 0, 1],
       cellNumber = Some (map_of [(''HL23PYR'', 2)]), data_net_pops = None, data_net_cells = None,
       duration = 25\<rparr> ''HL23PYR'' 10
       = Inr ([5, 15, 25], [Fin 50, Fin 100, Fin 0])"
  by (simp add: compute_firing_rate_histogram_def get_population_spikes_def get_population_gids_def
      get_population_cell_count_def pop_order_def py_range2_def py_range_def dict_get_def
      np_arange_def np_histogram_def rates_of_def np_true_divide_def bin_centers_of_def
      pyfloat_eval hist_ev ceiling_5_2 upt_rec upto_rec1 numeral_2_eq_2 Let_def)

end
